theory Spec2Isabelle
  imports Complex_Main
begin

section \<open>The token balance store (stores/useTokenBalanceStore.tsx)\<close>

text \<open>
  The store keeps the last balances of the two tracked assets and a loading flag. Its two
  operations read the ledger through an RPC connection and the token library; both are
  asynchronous functions whose bodies run sequentially between their awaits.

  Modelling decisions.
  \<^item> A JavaScript \<open>number\<close> that holds a balance is a rational: the only arithmetic is one
    division of an integer by a positive power of ten, modelled exactly.
  \<^item> A thrown value is \<open>Inl\<close> of an \<open>error\<close>; a normal result is \<open>Inr\<close>.
  \<^item> The ledger is an oracle: for every remote operation, the outcome of its n-th call
    (with the arguments of that call). The \<open>World\<close> counts the calls made so far, the
    time spent in back-off waits and the events dispatched on the window.
  \<^item> \<open>console.log\<close>, \<open>console.warn\<close> and \<open>console.error\<close> have no effect on the
    store and are left out.
\<close>

subsection \<open>Data\<close>

type_synonym PublicKey = string

datatype error = Error string

record TokenBalance =
  SOL :: rat
  GOLD :: rat

datatype TokenSymbol = Sym_SOL | Sym_GOLD

record State =
  balances :: TokenBalance
  isLoading :: bool

text \<open>The value \<open>connection.getAccountInfo\<close> resolves to when the account exists.\<close>

record AccountInfo =
  data :: "nat list"
  owner :: PublicKey

text \<open>
  The ledger as the store sees it: \<open>connection.getBalance\<close>,
  \<open>connection.getAccountInfo\<close>, and the two functions of the token library,
  \<open>getAssociatedTokenAddress\<close> and \<open>getAccount\<close>. Each maps the arguments of a call
  and the number of earlier calls of the same operation to what the call resolves to
  (\<open>Inr\<close>) or rejects with (\<open>Inl\<close>). \<open>getAccount\<close> gives the \<open>amount\<close> field, the
  only one the store reads.
\<close>

record Connection =
  getBalance :: "PublicKey \<Rightarrow> nat \<Rightarrow> error + int"
  getAssociatedTokenAddress :: "PublicKey \<Rightarrow> PublicKey \<Rightarrow> nat \<Rightarrow> error + PublicKey"
  getAccountInfo :: "PublicKey \<Rightarrow> nat \<Rightarrow> error + AccountInfo option"
  getAccount :: "PublicKey \<Rightarrow> nat \<Rightarrow> error + int"

record World =
  n_getBalance :: nat
  n_getAssociatedTokenAddress :: nat
  n_getAccountInfo :: nat
  n_getAccount :: nat
  slept_ms :: nat
  window_defined :: bool
  dispatched :: "TokenBalance list"

text \<open>
  \<open>config/tokens\<close> is not part of the sources at hand, so the two values read from
  \<open>TOKENS.GOLD\<close> are parameters: \<open>GOLD_mint\<close> is the outcome of
  \<open>new PublicKey(TOKENS.GOLD.mint)\<close>, which throws on a string that is no public key,
  and \<open>GOLD_decimals\<close> is \<open>TOKENS.GOLD.decimals\<close>.
\<close>

record Tokens =
  GOLD_mint :: "error + PublicKey"
  GOLD_decimals :: nat

definition LAMPORTS_PER_SOL :: rat where
  "LAMPORTS_PER_SOL = 1000000000"

definition TOKEN_PROGRAM_ID :: PublicKey where
  "TOKEN_PROGRAM_ID = ''TokenkegQfeZyiNwAJbNbGKPFXCWuBvf9Ss623VQ5DA''"

definition initial_state :: State where
  "initial_state = \<lparr>balances = \<lparr>SOL = 0, GOLD = 0\<rparr>, isLoading = False\<rparr>"

subsection \<open>Remote calls and waits\<close>

definition call_getBalance :: "Connection \<Rightarrow> PublicKey \<Rightarrow> World \<Rightarrow> (error + int) \<times> World" where
  "call_getBalance conn pk w =
     (getBalance conn pk (n_getBalance w), w\<lparr>n_getBalance := Suc (n_getBalance w)\<rparr>)"

definition call_getAssociatedTokenAddress ::
  "Connection \<Rightarrow> PublicKey \<Rightarrow> PublicKey \<Rightarrow> World \<Rightarrow> (error + PublicKey) \<times> World" where
  "call_getAssociatedTokenAddress conn mint pk w =
     (getAssociatedTokenAddress conn mint pk (n_getAssociatedTokenAddress w),
      w\<lparr>n_getAssociatedTokenAddress := Suc (n_getAssociatedTokenAddress w)\<rparr>)"

definition call_getAccountInfo ::
  "Connection \<Rightarrow> PublicKey \<Rightarrow> World \<Rightarrow> (error + AccountInfo option) \<times> World" where
  "call_getAccountInfo conn addr w =
     (getAccountInfo conn addr (n_getAccountInfo w),
      w\<lparr>n_getAccountInfo := Suc (n_getAccountInfo w)\<rparr>)"

definition call_getAccount :: "Connection \<Rightarrow> PublicKey \<Rightarrow> World \<Rightarrow> (error + int) \<times> World" where
  "call_getAccount conn addr w =
     (getAccount conn addr (n_getAccount w), w\<lparr>n_getAccount := Suc (n_getAccount w)\<rparr>)"

text \<open>\<open>await new Promise(resolve => setTimeout(resolve, ms))\<close>\<close>

definition backoff :: "nat \<Rightarrow> World \<Rightarrow> World" where
  "backoff ms w = w\<lparr>slept_ms := slept_ms w + ms\<rparr>"

text \<open>
  \<open>if (typeof window !== 'undefined') window.dispatchEvent(new CustomEvent('balanceUpdated',
  {detail}))\<close>
\<close>

definition dispatchEvent :: "TokenBalance \<Rightarrow> World \<Rightarrow> World" where
  "dispatchEvent detail w =
     (if window_defined w then w\<lparr>dispatched := dispatched w @ [detail]\<rparr> else w)"

subsection \<open>The SOL retry loop\<close>

text \<open>
  The body of the \<open>try\<close> in the SOL loop. The loop is written twice in the source, in
  \<open>getTokenBalance\<close> (lines 38-49) and in \<open>getAllTokenBalances\<close> (lines 120-131), with
  the same text up to the name of the variable assigned; one definition serves both.
\<close>

definition sol_attempt :: "PublicKey \<Rightarrow> Connection \<Rightarrow> World \<Rightarrow> (error + rat) \<times> World" where
  "sol_attempt pk conn w =
     (case call_getBalance conn pk w of
        (Inl err, w') \<Rightarrow> (Inl err, w')
      | (Inr solBalance, w') \<Rightarrow> (Inr (of_int solBalance / LAMPORTS_PER_SOL), w'))"

text \<open>
  \<open>for (let i = 0; i < 3; i++) { try { ...; break; } catch (error) { if (i === 2) throw
  error; await wait(1000); } }\<close>. The result is \<open>Inl\<close> when the loop throws, and otherwise
  the value of the variable the loop assigns (\<open>solAmount\<close>, initially 0).
\<close>

function sol_loop ::
  "PublicKey \<Rightarrow> Connection \<Rightarrow> nat \<Rightarrow> rat \<Rightarrow> World \<Rightarrow> (error + rat) \<times> World" where
  "sol_loop pk conn i solAmount w =
     (if i < 3 then
        (case sol_attempt pk conn w of
           (Inr v, w') \<Rightarrow> (Inr v, w')
         | (Inl err, w') \<Rightarrow>
             if i = 2 then (Inl err, w')
             else sol_loop pk conn (i + 1) solAmount (backoff 1000 w'))
      else (Inr solAmount, w))"
  by pat_completeness auto
termination
  by (relation "measure (\<lambda>(pk, conn, i, solAmount, w). 3 - i)") auto

subsection \<open>The GOLD retry loops\<close>

text \<open>The body of the \<open>try\<close> in \<open>getTokenBalance\<close> (lines 57-69).\<close>

definition gold_attempt_one ::
  "Tokens \<Rightarrow> PublicKey \<Rightarrow> PublicKey \<Rightarrow> Connection \<Rightarrow> World \<Rightarrow> (error + rat) \<times> World" where
  "gold_attempt_one tok tokenMint pk conn w =
     (case call_getAssociatedTokenAddress conn tokenMint pk w of
        (Inl err, w1) \<Rightarrow> (Inl err, w1)
      | (Inr tokenAccount, w1) \<Rightarrow>
          (case call_getAccountInfo conn tokenAccount w1 of
             (Inl err, w2) \<Rightarrow> (Inl err, w2)
           | (Inr accountInfo, w2) \<Rightarrow>
               (case accountInfo of
                  Some info \<Rightarrow>
                    (case call_getAccount conn tokenAccount w2 of
                       (Inl err, w3) \<Rightarrow> (Inl err, w3)
                     | (Inr amount, w3) \<Rightarrow>
                         (Inr (of_int amount / 10 ^ GOLD_decimals tok), w3))
                | None \<Rightarrow> (Inr 0, w2))))"

text \<open>The body of the \<open>try\<close> in \<open>getAllTokenBalances\<close> (lines 140-159).\<close>

definition gold_attempt_all ::
  "Tokens \<Rightarrow> PublicKey \<Rightarrow> PublicKey \<Rightarrow> Connection \<Rightarrow> World \<Rightarrow> (error + rat) \<times> World" where
  "gold_attempt_all tok tokenMint pk conn w =
     (case call_getAssociatedTokenAddress conn tokenMint pk w of
        (Inl err, w1) \<Rightarrow> (Inl err, w1)
      | (Inr tokenAccount, w1) \<Rightarrow>
          (case call_getAccountInfo conn tokenAccount w1 of
             (Inl err, w2) \<Rightarrow> (Inl err, w2)
           | (Inr accountInfo, w2) \<Rightarrow>
               (case accountInfo of
                  Some info \<Rightarrow>
                    if length (data info) > 0 then
                      if owner info = TOKEN_PROGRAM_ID then
                        (case call_getAccount conn tokenAccount w2 of
                           (Inl err, w3) \<Rightarrow> (Inl err, w3)
                         | (Inr amount, w3) \<Rightarrow>
                             (Inr (of_int amount / 10 ^ GOLD_decimals tok), w3))
                      else (Inr 0, w2)
                    else (Inr 0, w2)
                | None \<Rightarrow> (Inr 0, w2))))"

text \<open>
  \<open>for (let i = 0; i < 3; i++) { try { ...; break; } catch (error) { if (i === 2) {
  balance = 0; } else { await wait(1000); } } }\<close>. This loop never throws: after the third
  failure the variable is set to 0 and the loop runs out. The attempt is the parameter
  \<open>attempt\<close>, so that the two copies of the loop (lines 55-80 and 138-170) share the text
  they share in the source.
\<close>

function gold_loop ::
  "(World \<Rightarrow> (error + rat) \<times> World) \<Rightarrow> nat \<Rightarrow> rat \<Rightarrow> World \<Rightarrow> rat \<times> World" where
  "gold_loop attempt i goldAmount w =
     (if i < 3 then
        (case attempt w of
           (Inr v, w') \<Rightarrow> (v, w')
         | (Inl err, w') \<Rightarrow>
             if i = 2 then gold_loop attempt (i + 1) 0 w'
             else gold_loop attempt (i + 1) goldAmount (backoff 1000 w'))
      else (goldAmount, w))"
  by pat_completeness auto
termination
  by (relation "measure (\<lambda>(attempt, i, goldAmount, w). 3 - i)") auto

text \<open>The loops are unfolded one iteration at a time, where a proof says so.\<close>

declare sol_loop.simps [simp del] gold_loop.simps [simp del]

subsection \<open>getTokenBalance\<close>

text \<open>\<open>{...state.balances, [tokenSymbol]: balance}\<close>\<close>

definition set_balance :: "TokenSymbol \<Rightarrow> rat \<Rightarrow> TokenBalance \<Rightarrow> TokenBalance" where
  "set_balance tokenSymbol balance b =
     (case tokenSymbol of Sym_SOL \<Rightarrow> b\<lparr>SOL := balance\<rparr> | Sym_GOLD \<Rightarrow> b\<lparr>GOLD := balance\<rparr>)"

text \<open>
  The part of \<open>getTokenBalance\<close> inside the outer \<open>try\<close> that computes \<open>balance\<close>
  (lines 34-81): \<open>Inl\<close> when it throws into the outer \<open>catch\<close>.
\<close>

definition fetch_one ::
  "Tokens \<Rightarrow> PublicKey \<Rightarrow> Connection \<Rightarrow> TokenSymbol \<Rightarrow> World \<Rightarrow> (error + rat) \<times> World" where
  "fetch_one tok pk conn tokenSymbol w =
     (case tokenSymbol of
        Sym_SOL \<Rightarrow> sol_loop pk conn 0 0 w
      | Sym_GOLD \<Rightarrow>
          (case GOLD_mint tok of
             Inl err \<Rightarrow> (Inl err, w)
           | Inr tokenMint \<Rightarrow>
               (case gold_loop (gold_attempt_one tok tokenMint pk conn) 0 0 w of
                  (balance, w') \<Rightarrow> (Inr balance, w'))))"

definition getTokenBalance ::
  "Tokens \<Rightarrow> PublicKey \<Rightarrow> Connection \<Rightarrow> TokenSymbol \<Rightarrow> State \<times> World \<Rightarrow> State \<times> World" where
  "getTokenBalance tok pk conn tokenSymbol sw =
     (case sw of (s, w) \<Rightarrow>
        let s1 = s\<lparr>isLoading := True\<rparr> in
        (case fetch_one tok pk conn tokenSymbol w of
           (Inr balance, w') \<Rightarrow>
             (s1\<lparr>balances := set_balance tokenSymbol balance (balances s1),
                 isLoading := False\<rparr>, w')
         | (Inl err, w') \<Rightarrow> (s1\<lparr>isLoading := False\<rparr>, w')))"

subsection \<open>getAllTokenBalances\<close>

text \<open>
  Lines 98-115, which run before the first \<open>await\<close>: the two guards and
  \<open>set({isLoading: true})\<close>. The second component is the pair the rest of the call works
  with, or \<open>None\<close> when a guard has returned.
\<close>

definition getAllTokenBalances_enter ::
  "PublicKey option \<Rightarrow> Connection option \<Rightarrow> State \<Rightarrow> State \<times> (PublicKey \<times> Connection) option" where
  "getAllTokenBalances_enter publicKey connection s =
     (case publicKey of
        None \<Rightarrow> (s\<lparr>isLoading := False\<rparr>, None)
      | Some pk \<Rightarrow>
          (case connection of
             None \<Rightarrow> (s\<lparr>isLoading := False\<rparr>, None)
           | Some conn \<Rightarrow> (s\<lparr>isLoading := True\<rparr>, Some (pk, conn))))"

text \<open>
  Lines 118-170, the two fetches inside the outer \<open>try\<close>: \<open>Inl\<close> when one of them throws
  into the outer \<open>catch\<close>, and otherwise \<open>(solAmount, goldAmount)\<close>.
\<close>

definition fetch_all ::
  "Tokens \<Rightarrow> PublicKey \<Rightarrow> Connection \<Rightarrow> World \<Rightarrow> (error + rat \<times> rat) \<times> World" where
  "fetch_all tok pk conn w =
     (case sol_loop pk conn 0 0 w of
        (Inl err, w1) \<Rightarrow> (Inl err, w1)
      | (Inr solAmount, w1) \<Rightarrow>
          (case GOLD_mint tok of
             Inl err \<Rightarrow> (Inl err, w1)
           | Inr tokenMint \<Rightarrow>
               (case gold_loop (gold_attempt_all tok tokenMint pk conn) 0 0 w1 of
                  (goldAmount, w2) \<Rightarrow> (Inr (solAmount, goldAmount), w2))))"

text \<open>Lines 117-199: the outer \<open>try\<close> with the publication, and its \<open>catch\<close>.\<close>

definition getAllTokenBalances_run ::
  "Tokens \<Rightarrow> PublicKey \<Rightarrow> Connection \<Rightarrow> State \<times> World \<Rightarrow> State \<times> World" where
  "getAllTokenBalances_run tok pk conn sw =
     (case sw of (s, w) \<Rightarrow>
        (case fetch_all tok pk conn w of
           (Inr (solAmount, goldAmount), w') \<Rightarrow>
             (s\<lparr>balances := \<lparr>SOL = solAmount, GOLD = goldAmount\<rparr>, isLoading := False\<rparr>,
              dispatchEvent \<lparr>SOL = solAmount, GOLD = goldAmount\<rparr> w')
         | (Inl err, w') \<Rightarrow> (s\<lparr>isLoading := False\<rparr>, w')))"

definition getAllTokenBalances ::
  "Tokens \<Rightarrow> PublicKey option \<Rightarrow> Connection option \<Rightarrow> State \<times> World \<Rightarrow> State \<times> World" where
  "getAllTokenBalances tok publicKey connection sw =
     (case sw of (s, w) \<Rightarrow>
        (case getAllTokenBalances_enter publicKey connection s of
           (s', None) \<Rightarrow> (s', w)
         | (s', Some (pk, conn)) \<Rightarrow> getAllTokenBalances_run tok pk conn (s', w)))"

section \<open>The price cache (components/BalanceTracker.tsx, fetchPriceData)\<close>

text \<open>
  The body of \<open>GET /api/market/prices\<close> as the component reads it: \<open>data.success\<close>, and
  \<open>data.data?.prices\<close>, which is \<open>None\<close> when \<open>data.data\<close> or its \<open>prices\<close> is
  missing. The transport is a value \<open>error + (error + ApiBody)\<close>: the outer sum is
  \<open>await fetch(...)\<close>, the inner one \<open>await response.json()\<close>.
\<close>

record PriceEntry =
  symbol :: string
  price :: rat

record ApiBody =
  success :: bool
  prices :: "PriceEntry list option"

type_synonym PriceMap = "string \<rightharpoonup> rat"

type_synonym HttpResult = "error + (error + ApiBody)"

text \<open>\<open>useState({SOL: 0, GOLD: 0})\<close>\<close>

definition initial_priceData :: PriceMap where
  "initial_priceData = [''SOL'' \<mapsto> 0, ''GOLD'' \<mapsto> 0]"

text \<open>
  Lines 26-40. The argument is what the transport gives, the second argument the
  \<open>priceData\<close> held by the component, and the result is \<open>priceData\<close> afterwards.
\<close>

definition fetchPriceData :: "HttpResult \<Rightarrow> PriceMap \<Rightarrow> PriceMap" where
  "fetchPriceData transport priceData =
     (case transport of
        Inl err \<Rightarrow> priceData
      | Inr response \<Rightarrow>
          (case response of
             Inl err \<Rightarrow> priceData
           | Inr body \<Rightarrow>
               if success body then
                 (case prices body of
                    Some ps \<Rightarrow> fold (\<lambda>p priceMap. priceMap(symbol p \<mapsto> price p)) ps Map.empty
                  | None \<Rightarrow> priceData)
               else priceData))"

section \<open>The component that schedules refreshes (components/BalanceTracker.tsx)\<close>

text \<open>
  The component calls \<open>getAllTokenBalances\<close> from four places: the initial-load effect
  (at once, and from two timeouts), the interval of the auto-refresh effect, the click
  handler \<open>handleRefresh\<close>, and the timeout \<open>handleRefresh\<close> sets. JavaScript runs one
  callback at a time, and a call of an asynchronous function runs up to its first
  \<open>await\<close> and is resumed later. \<open>getAllTokenBalances\<close> touches the store in two places
  only, before its first \<open>await\<close> and after its last, so a call in flight is an entry of
  the list \<open>running\<close>: it has set \<open>isLoading\<close> and will run lines 117-199 when the event
  loop resumes it. The events of the model are the callbacks the event loop can run: a new
  wallet identity, a click, a timer that fires, a call in flight that completes.
  The network calls of a call in flight are taken at its completion, and \<open>fetchPriceData\<close>
  is taken to complete where it is called; neither touches the store or the timers.
\<close>

datatype trigger = Initial | Delayed | Secondary | Periodic | Manual

record Call =
  call_origin :: trigger
  call_publicKey :: PublicKey
  call_connection :: Connection

text \<open>
  A pending timer: its handle, its delay, whether it is an interval, which callback it
  runs, and the \<open>publicKey\<close> and \<open>connection\<close> the callback has captured.
\<close>

record Timer =
  timer_id :: nat
  timer_delay :: nat
  timer_repeats :: bool
  timer_origin :: trigger
  timer_publicKey :: "PublicKey option"
  timer_connection :: "Connection option"

text \<open>
  \<open>interval_handle\<close> and \<open>timeout_handles\<close> are the handles held by the clean-up
  functions of the two effects; \<open>lastUpdated\<close> counts the calls of \<open>setLastUpdated\<close>;
  \<open>market\<close> is the price API, the outcome of its n-th request.
\<close>

record Tracker =
  autoRefresh :: bool
  refreshInterval :: nat
  tokens :: Tokens
  market :: "nat \<Rightarrow> HttpResult"
  n_fetch :: nat
  publicKey :: "PublicKey option"
  connection :: "Connection option"
  store :: State
  world :: World
  priceData :: PriceMap
  lastUpdated :: nat
  timers :: "Timer list"
  next_timer :: nat
  interval_handle :: "nat option"
  timeout_handles :: "nat list"
  listening :: bool
  running :: "Call list"

definition setTimer ::
  "bool \<Rightarrow> nat \<Rightarrow> trigger \<Rightarrow> PublicKey option \<Rightarrow> Connection option \<Rightarrow> Tracker \<Rightarrow> nat \<times> Tracker" where
  "setTimer repeats delay origin pk conn t =
     (next_timer t,
      t\<lparr>timers := timers t @
           [\<lparr>timer_id = next_timer t, timer_delay = delay, timer_repeats = repeats,
             timer_origin = origin, timer_publicKey = pk, timer_connection = conn\<rparr>],
        next_timer := Suc (next_timer t)\<rparr>)"

definition clearTimer :: "nat \<Rightarrow> Tracker \<Rightarrow> Tracker" where
  "clearTimer h t = t\<lparr>timers := filter (\<lambda>tm. timer_id tm \<noteq> h) (timers t)\<rparr>"

definition tracker_fetchPriceData :: "Tracker \<Rightarrow> Tracker" where
  "tracker_fetchPriceData t =
     t\<lparr>priceData := fetchPriceData (market t (n_fetch t)) (priceData t),
       n_fetch := Suc (n_fetch t)\<rparr>"

text \<open>
  What the caller does after \<open>await getAllTokenBalances(...)\<close>: \<open>handleRefresh\<close> sets the
  secondary timeout (lines 57-60), \<open>refreshBalances\<close> sets \<open>lastUpdated\<close> and fetches the
  prices (lines 46-47), the other callers do nothing.
\<close>

definition after_call ::
  "trigger \<Rightarrow> PublicKey option \<Rightarrow> Connection option \<Rightarrow> Tracker \<Rightarrow> Tracker" where
  "after_call origin pk conn t =
     (case origin of
        Manual \<Rightarrow> snd (setTimer False 2000 Secondary pk conn t)
      | Periodic \<Rightarrow> tracker_fetchPriceData (t\<lparr>lastUpdated := Suc (lastUpdated t)\<rparr>)
      | _ \<Rightarrow> t)"

text \<open>
  A caller invokes \<open>getAllTokenBalances(publicKey, connection)\<close>: lines 98-115 run at
  once. When a guard returns, the caller goes on; otherwise the call is in flight.
\<close>

definition call_getAllTokenBalances ::
  "trigger \<Rightarrow> PublicKey option \<Rightarrow> Connection option \<Rightarrow> Tracker \<Rightarrow> Tracker" where
  "call_getAllTokenBalances origin pk conn t =
     (case getAllTokenBalances_enter pk conn (store t) of
        (s', None) \<Rightarrow> after_call origin pk conn (t\<lparr>store := s'\<rparr>)
      | (s', Some (p, c)) \<Rightarrow>
          t\<lparr>store := s',
            running := running t @
              [\<lparr>call_origin = origin, call_publicKey = p, call_connection = c\<rparr>]\<rparr>)"

text \<open>
  The k-th call in flight runs lines 117-199. The listener \<open>handleBalanceUpdate\<close> runs
  inside \<open>window.dispatchEvent\<close> when it is registered.
\<close>

definition complete :: "nat \<Rightarrow> Tracker \<Rightarrow> Tracker" where
  "complete k t =
     (if k < length (running t) then
        let c = running t ! k;
            sw = getAllTokenBalances_run (tokens t) (call_publicKey c) (call_connection c)
                   (store t, world t);
            heard = (listening t \<and> length (dispatched (world t)) < length (dispatched (snd sw)));
            t1 = t\<lparr>store := fst sw, world := snd sw,
                   lastUpdated := (if heard then Suc (lastUpdated t) else lastUpdated t),
                   running := take k (running t) @ drop (Suc k) (running t)\<rparr>
        in after_call (call_origin c) (Some (call_publicKey c)) (Some (call_connection c)) t1
      else t)"

text \<open>Lines 52-62, and the button that calls it (lines 125 and 148-150).\<close>

definition handleRefresh :: "Tracker \<Rightarrow> Tracker" where
  "handleRefresh t =
     (case publicKey t of
        None \<Rightarrow> t
      | Some pk \<Rightarrow>
          (case connection t of
             None \<Rightarrow> t
           | Some conn \<Rightarrow> call_getAllTokenBalances Manual (Some pk) (Some conn) t))"

definition click :: "Tracker \<Rightarrow> Tracker" where
  "click t = (if publicKey t \<noteq> None \<and> \<not> isLoading (store t) then handleRefresh t else t)"

text \<open>Lines 43-49, with the \<open>publicKey\<close> and \<open>connection\<close> of the render that made it.\<close>

definition refreshBalances :: "PublicKey option \<Rightarrow> Connection option \<Rightarrow> Tracker \<Rightarrow> Tracker" where
  "refreshBalances pk conn t =
     (if pk \<noteq> None then call_getAllTokenBalances Periodic pk conn t else t)"

text \<open>The timer with handle \<open>h\<close> fires; a timeout is gone afterwards, an interval stays.\<close>

definition fire :: "nat \<Rightarrow> Tracker \<Rightarrow> Tracker" where
  "fire h t =
     (case find (\<lambda>tm. timer_id tm = h) (timers t) of
        None \<Rightarrow> t
      | Some tm \<Rightarrow>
          let t1 = (if timer_repeats tm then t else clearTimer h t) in
          (case timer_origin tm of
             Periodic \<Rightarrow> refreshBalances (timer_publicKey tm) (timer_connection tm) t1
           | _ \<Rightarrow>
               call_getAllTokenBalances (timer_origin tm) (timer_publicKey tm)
                 (timer_connection tm) t1))"

text \<open>The auto-refresh effect (lines 65-70) and its clean-up.\<close>

definition autoRefresh_effect :: "Tracker \<Rightarrow> Tracker" where
  "autoRefresh_effect t =
     (if autoRefresh t \<and> publicKey t \<noteq> None then
        (case setTimer True (refreshInterval t) Periodic (publicKey t) (connection t) t of
           (h, t1) \<Rightarrow> t1\<lparr>interval_handle := Some h\<rparr>)
      else t)"

definition autoRefresh_cleanup :: "Tracker \<Rightarrow> Tracker" where
  "autoRefresh_cleanup t =
     (case interval_handle t of
        None \<Rightarrow> t
      | Some h \<Rightarrow> (clearTimer h t)\<lparr>interval_handle := None\<rparr>)"

text \<open>The initial-load effect (lines 73-104) and its clean-up (lines 99-102).\<close>

definition initialLoad_effect :: "Tracker \<Rightarrow> Tracker" where
  "initialLoad_effect t =
     (case publicKey t of
        None \<Rightarrow> t
      | Some pk \<Rightarrow>
          (case connection t of
             None \<Rightarrow> t
           | Some conn \<Rightarrow>
               let t1 = call_getAllTokenBalances Initial (Some pk) (Some conn) t;
                   t2 = tracker_fetchPriceData t1
               in (case setTimer False 3000 Delayed (Some pk) (Some conn) t2 of
                     (h1, t3) \<Rightarrow>
                       (case setTimer False 10000 Delayed (Some pk) (Some conn) t3 of
                          (h2, t4) \<Rightarrow> t4\<lparr>timeout_handles := [h1, h2], listening := True\<rparr>))))"

definition initialLoad_cleanup :: "Tracker \<Rightarrow> Tracker" where
  "initialLoad_cleanup t =
     (fold clearTimer (timeout_handles t) t)\<lparr>timeout_handles := [], listening := False\<rparr>"

text \<open>
  The wallet adapter gives a new \<open>publicKey\<close> (\<open>None\<close> when the wallet disconnects). It
  is a dependency of both effects: the component renders again, the clean-ups of the
  previous render run, then the effects.
\<close>

definition setPublicKey :: "PublicKey option \<Rightarrow> Tracker \<Rightarrow> Tracker" where
  "setPublicKey pk t =
     (if pk = publicKey t then t
      else initialLoad_effect (autoRefresh_effect
             ((initialLoad_cleanup (autoRefresh_cleanup t))\<lparr>publicKey := pk\<rparr>)))"

text \<open>The component is mounted: first render, then both effects.\<close>

definition mount ::
  "bool \<Rightarrow> nat \<Rightarrow> Tokens \<Rightarrow> (nat \<Rightarrow> HttpResult) \<Rightarrow> PublicKey option \<Rightarrow> Connection option \<Rightarrow>
   State \<Rightarrow> World \<Rightarrow> Tracker" where
  "mount auto ms tok api pk conn s w =
     initialLoad_effect (autoRefresh_effect
       \<lparr>autoRefresh = auto, refreshInterval = ms, tokens = tok, market = api, n_fetch = 0,
        publicKey = pk, connection = conn, store = s, world = w,
        priceData = initial_priceData, lastUpdated = 0, timers = [], next_timer = 0,
        interval_handle = None, timeout_handles = [], listening = False, running = []\<rparr>)"

datatype event = SetPublicKey "PublicKey option" | Click | Fire nat | Complete nat

fun step :: "event \<Rightarrow> Tracker \<Rightarrow> Tracker" where
  "step (SetPublicKey pk) t = setPublicKey pk t"
| "step Click t = click t"
| "step (Fire h) t = fire h t"
| "step (Complete k) t = complete k t"

definition run_events :: "event list \<Rightarrow> Tracker \<Rightarrow> Tracker" where
  "run_events es t = fold step es t"

section \<open>Describing what the ledger does\<close>

text \<open>
  \<open>failures attempt k w\<close> says that \<open>k\<close> attempts in a row fail when the first starts in
  world \<open>w\<close> and each failure is followed by the wait of 1000 ms; it gives the world after
  the last wait, where attempt \<open>k + 1\<close> would start.
\<close>

fun failures :: "(World \<Rightarrow> (error + 'a) \<times> World) \<Rightarrow> nat \<Rightarrow> World \<Rightarrow> World option" where
  "failures attempt 0 w = Some w"
| "failures attempt (Suc k) w =
     (case attempt w of
        (Inl err, w') \<Rightarrow> failures attempt k (backoff 1000 w')
      | (Inr v, w') \<Rightarrow> None)"

text \<open>The ledger reports no negative raw amount.\<close>

definition nonneg_ledger :: "Connection \<Rightarrow> bool" where
  "nonneg_ledger conn \<longleftrightarrow>
     (\<forall>pk n v. getBalance conn pk n = Inr v \<longrightarrow> 0 \<le> v) \<and>
     (\<forall>addr n v. getAccount conn addr n = Inr v \<longrightarrow> 0 \<le> v)"

definition nonneg_balances :: "State \<Rightarrow> bool" where
  "nonneg_balances s \<longleftrightarrow> 0 \<le> SOL (balances s) \<and> 0 \<le> GOLD (balances s)"

text \<open>
  The states of the store after any number of refreshes, of one asset or of all, against
  ledgers that report no negative raw amount.
\<close>

inductive reachable :: "Tokens \<Rightarrow> State \<Rightarrow> bool" for tok :: Tokens where
  reachable_init: "reachable tok initial_state"
| reachable_one:
    "reachable tok s \<Longrightarrow> nonneg_ledger conn \<Longrightarrow>
     reachable tok (fst (getTokenBalance tok pk conn tokenSymbol (s, w)))"
| reachable_all:
    "reachable tok s \<Longrightarrow> (case co of None \<Rightarrow> True | Some conn \<Rightarrow> nonneg_ledger conn) \<Longrightarrow>
     reachable tok (fst (getAllTokenBalances tok pko co (s, w)))"

section \<open>Sample wallets and ledgers\<close>

definition wallet :: PublicKey where
  "wallet = ''7xKXtg2CW87d97TXJSDpbD5jBkheTqA83TZRuJosgAsU''"

definition gold_mint :: PublicKey where
  "gold_mint = ''APkBg8kzMBpVKxvgrw67vkd5KuGWqSu2GVb19eK4pump''"

definition tokens0 :: Tokens where
  "tokens0 = \<lparr>GOLD_mint = Inr gold_mint, GOLD_decimals = 6\<rparr>"

definition world0 :: World where
  "world0 = \<lparr>n_getBalance = 0, n_getAssociatedTokenAddress = 0, n_getAccountInfo = 0,
     n_getAccount = 0, slept_ms = 0, window_defined = True, dispatched = []\<rparr>"

text \<open>A ledger that answers every call: 1.5 SOL and 2 GOLD in a token account.\<close>

definition ledger_ok :: Connection where
  "ledger_ok =
     \<lparr>getBalance = (\<lambda>pk n. Inr 1500000000),
      getAssociatedTokenAddress = (\<lambda>mint pk n. Inr ''ata''),
      getAccountInfo = (\<lambda>addr n. Inr (Some \<lparr>data = [1], owner = TOKEN_PROGRAM_ID\<rparr>)),
      getAccount = (\<lambda>addr n. Inr 2000000)\<rparr>"

text \<open>The same ledger behind a network that drops the first two requests of each kind.\<close>

definition ledger_flaky :: Connection where
  "ledger_flaky =
     \<lparr>getBalance = (\<lambda>pk n. if n < 2 then Inl (Error ''timeout'') else Inr 1500000000),
      getAssociatedTokenAddress = (\<lambda>mint pk n. Inr ''ata''),
      getAccountInfo = (\<lambda>addr n. if n < 2 then Inl (Error ''timeout'')
         else Inr (Some \<lparr>data = [1], owner = TOKEN_PROGRAM_ID\<rparr>)),
      getAccount = (\<lambda>addr n. Inr 2000000)\<rparr>"

text \<open>A ledger whose balance requests all fail, while the token account can be read.\<close>

definition ledger_sol_down :: Connection where
  "ledger_sol_down = ledger_ok\<lparr>getBalance := (\<lambda>pk n. Inl (Error ''timeout''))\<rparr>"

text \<open>A ledger whose account requests all fail, while the balance can be read.\<close>

definition ledger_gold_down :: Connection where
  "ledger_gold_down = ledger_ok\<lparr>getAccountInfo := (\<lambda>addr n. Inl (Error ''timeout''))\<rparr>"

text \<open>
  A ledger on which the address of the token account holds a plain account: no data,
  owned by the system program. The token library's \<open>getAccount\<close> reads the account
  itself and throws on one that the token program does not own.
\<close>

definition ledger_plain_account :: Connection where
  "ledger_plain_account =
     ledger_ok\<lparr>getAccountInfo :=
                 (\<lambda>addr n. Inr (Some \<lparr>data = [], owner = ''11111111111111111111111111111111''\<rparr>)),
               getAccount := (\<lambda>addr n. Inl (Error ''TokenInvalidAccountOwnerError''))\<rparr>"

text \<open>A ledger on which the wallet has no GOLD token account.\<close>

definition ledger_no_account :: Connection where
  "ledger_no_account = ledger_ok\<lparr>getAccountInfo := (\<lambda>addr n. Inr None)\<rparr>"

text \<open>A ledger none of whose requests is answered.\<close>

definition ledger_down :: Connection where
  "ledger_down =
     \<lparr>getBalance = (\<lambda>pk n. Inl (Error ''timeout'')),
      getAssociatedTokenAddress = (\<lambda>mint pk n. Inl (Error ''timeout'')),
      getAccountInfo = (\<lambda>addr n. Inl (Error ''timeout'')),
      getAccount = (\<lambda>addr n. Inl (Error ''timeout''))\<rparr>"

text \<open>
  A ledger none of whose requests is answered, where each balance request fails with an
  error of its own.
\<close>

definition ledger_down_numbered :: Connection where
  "ledger_down_numbered =
     ledger_down\<lparr>getBalance :=
       (\<lambda>pk n. Inl (Error (if n = 0 then ''first timeout''
                             else if n = 1 then ''second timeout'' else ''third timeout'')))\<rparr>"

text \<open>A store that holds balances of an earlier refresh.\<close>

definition stale_state :: State where
  "stale_state = \<lparr>balances = \<lparr>SOL = 5, GOLD = 7\<rparr>, isLoading = False\<rparr>"

definition market_ok :: "nat \<Rightarrow> HttpResult" where
  "market_ok n =
     Inr (Inr \<lparr>success = True,
               prices = Some [\<lparr>symbol = ''SOL'', price = 150\<rparr>, \<lparr>symbol = ''GOLD'', price = 2\<rparr>]\<rparr>)"

text \<open>
  The component just mounted with a connected wallet: the first call is in flight, the
  interval and the two start-up timeouts are pending.
\<close>

definition tracker0 :: Tracker where
  "tracker0 =
     mount True 10000 tokens0 market_ok (Some wallet) (Some ledger_ok) initial_state world0"

section \<open>Properties of the retry loops\<close>

lemma sol_attempt_world:
  "sol_attempt pk conn w = (r, w') \<Longrightarrow> w' = w\<lparr>n_getBalance := Suc (n_getBalance w)\<rparr>"
  by (auto simp: sol_attempt_def call_getBalance_def split: sum.splits)

lemma gold_attempt_one_counts:
  "gold_attempt_one tok m pk conn w = (r, w') \<Longrightarrow>
   n_getAssociatedTokenAddress w' = Suc (n_getAssociatedTokenAddress w) \<and>
   n_getBalance w' = n_getBalance w \<and> slept_ms w' = slept_ms w \<and>
   dispatched w' = dispatched w \<and> window_defined w' = window_defined w"
  by (auto simp: gold_attempt_one_def call_getAssociatedTokenAddress_def
      call_getAccountInfo_def call_getAccount_def split: sum.splits option.splits)

lemma gold_attempt_all_counts:
  "gold_attempt_all tok m pk conn w = (r, w') \<Longrightarrow>
   n_getAssociatedTokenAddress w' = Suc (n_getAssociatedTokenAddress w) \<and>
   n_getBalance w' = n_getBalance w \<and> slept_ms w' = slept_ms w \<and>
   dispatched w' = dispatched w \<and> window_defined w' = window_defined w"
  by (auto simp: gold_attempt_all_def call_getAssociatedTokenAddress_def
      call_getAccountInfo_def call_getAccount_def split: sum.splits option.splits if_splits)

text \<open>A counter that every attempt advances by one advances by \<open>k\<close> over \<open>k\<close> failures.\<close>

lemma failures_count:
  assumes step: "\<And>w r w'. attempt w = (r, w') \<Longrightarrow> c w' = Suc (c w)"
    and wait: "\<And>w. c (backoff 1000 w) = c w"
  shows "failures attempt k w = Some wk \<Longrightarrow> c wk = c w + k"
proof (induction k arbitrary: w)
  case 0
  then show ?case by simp
next
  case (Suc k)
  from Suc.prems obtain err w' where
    att: "attempt w = (Inl err, w')" and
    rest: "failures attempt k (backoff 1000 w') = Some wk"
    by (auto split: prod.splits sum.splits)
  from Suc.IH [OF rest] step [OF att] wait show ?case by simp
qed

lemma failures_slept:
  assumes step: "\<And>w r w'. attempt w = (r, w') \<Longrightarrow> slept_ms w' = slept_ms w"
  shows "failures attempt k w = Some wk \<Longrightarrow> slept_ms wk = slept_ms w + 1000 * k"
proof (induction k arbitrary: w)
  case 0
  then show ?case by simp
next
  case (Suc k)
  from Suc.prems obtain err w' where
    att: "attempt w = (Inl err, w')" and
    rest: "failures attempt k (backoff 1000 w') = Some wk"
    by (auto split: prod.splits sum.splits)
  from Suc.IH [OF rest] step [OF att] show ?case by (simp add: backoff_def)
qed

lemma sol_failures_count:
  "failures (sol_attempt pk conn) k w = Some wk \<Longrightarrow> n_getBalance wk = n_getBalance w + k"
  by (rule failures_count [where c = n_getBalance])
     (auto dest: sol_attempt_world simp: backoff_def)

lemma sol_failures_other:
  "failures (sol_attempt pk conn) k w = Some wk \<Longrightarrow>
   n_getAssociatedTokenAddress wk = n_getAssociatedTokenAddress w \<and>
   dispatched wk = dispatched w"
proof (induction k arbitrary: w)
  case 0
  then show ?case by simp
next
  case (Suc k)
  from Suc.prems obtain err w' where
    att: "sol_attempt pk conn w = (Inl err, w')" and
    rest: "failures (sol_attempt pk conn) k (backoff 1000 w') = Some wk"
    by (auto split: prod.splits sum.splits)
  from Suc.IH [OF rest] sol_attempt_world [OF att] show ?case by (simp add: backoff_def)
qed

lemma gold_one_failures_count:
  "failures (gold_attempt_one tok m pk conn) k w = Some wk \<Longrightarrow>
   n_getAssociatedTokenAddress wk = n_getAssociatedTokenAddress w + k"
  by (rule failures_count [where c = n_getAssociatedTokenAddress])
     (auto dest: gold_attempt_one_counts simp: backoff_def)

lemma gold_all_failures_count:
  "failures (gold_attempt_all tok m pk conn) k w = Some wk \<Longrightarrow>
   n_getAssociatedTokenAddress wk = n_getAssociatedTokenAddress w + k"
  by (rule failures_count [where c = n_getAssociatedTokenAddress])
     (auto dest: gold_attempt_all_counts simp: backoff_def)


lemma sol_loop_after_failures:
  "failures (sol_attempt pk conn) k w = Some wk \<Longrightarrow> i + k < 3 \<Longrightarrow>
   sol_loop pk conn i a w = sol_loop pk conn (i + k) a wk"
proof (induction k arbitrary: i w)
  case 0
  then show ?case by simp
next
  case (Suc k)
  from Suc.prems obtain err w' where
    att: "sol_attempt pk conn w = (Inl err, w')" and
    rest: "failures (sol_attempt pk conn) k (backoff 1000 w') = Some wk"
    by (auto split: prod.splits sum.splits)
  from Suc.prems have i: "i < 3" "i \<noteq> 2" "Suc i + k < 3" by auto
  have "sol_loop pk conn i a w = sol_loop pk conn (Suc i) a (backoff 1000 w')"
    using att i by (subst sol_loop.simps) simp
  also have "\<dots> = sol_loop pk conn (Suc i + k) a wk"
    using Suc.IH [OF rest i(3)] .
  finally show ?case by simp
qed

lemma gold_loop_after_failures:
  "failures attempt k w = Some wk \<Longrightarrow> i + k < 3 \<Longrightarrow>
   gold_loop attempt i a w = gold_loop attempt (i + k) a wk"
proof (induction k arbitrary: i w)
  case 0
  then show ?case by simp
next
  case (Suc k)
  from Suc.prems obtain err w' where
    att: "attempt w = (Inl err, w')" and
    rest: "failures attempt k (backoff 1000 w') = Some wk"
    by (auto split: prod.splits sum.splits)
  from Suc.prems have i: "i < 3" "i \<noteq> 2" "Suc i + k < 3" by auto
  have "gold_loop attempt i a w = gold_loop attempt (Suc i) a (backoff 1000 w')"
    using att i by (subst gold_loop.simps) simp
  also have "\<dots> = gold_loop attempt (Suc i + k) a wk"
    using Suc.IH [OF rest i(3)] .
  finally show ?case by simp
qed

lemma sol_loop_success:
  "sol_attempt pk conn w = (Inr v, w') \<Longrightarrow> i < 3 \<Longrightarrow> sol_loop pk conn i a w = (Inr v, w')"
  by (subst sol_loop.simps) simp

lemma sol_loop_last_failure:
  "sol_attempt pk conn w = (Inl err, w') \<Longrightarrow> sol_loop pk conn 2 a w = (Inl err, w')"
  by (subst sol_loop.simps) simp

lemma gold_loop_success:
  "attempt w = (Inr v, w') \<Longrightarrow> i < 3 \<Longrightarrow> gold_loop attempt i a w = (v, w')"
  by (subst gold_loop.simps) simp

lemma gold_loop_exit: "gold_loop attempt 3 a w = (a, w)"
  by (subst gold_loop.simps) simp

lemma gold_loop_last_failure:
  assumes "attempt w = (Inl err, w')"
  shows "gold_loop attempt 2 a w = (0, w')"
proof -
  have "gold_loop attempt 2 a w = gold_loop attempt 3 0 w'"
    using assms by (subst gold_loop.simps) simp
  then show ?thesis by (simp add: gold_loop_exit)
qed

lemma failures_Suc_end:
  "failures attempt (Suc k) w \<noteq> None \<Longrightarrow>
   \<exists>wk err w'. failures attempt k w = Some wk \<and> attempt wk = (Inl err, w')"
proof (induction k arbitrary: w)
  case 0
  then show ?case by (auto split: prod.splits sum.splits)
next
  case (Suc k)
  from Suc.prems obtain err w' where
    att: "attempt w = (Inl err, w')" and
    rest: "failures attempt (Suc k) (backoff 1000 w') \<noteq> None"
    by (auto split: prod.splits sum.splits)
  from Suc.IH [OF rest] att show ?case by auto
qed

text \<open>
  Three failures in a row: the SOL loop throws the third error, in the world the third
  attempt leaves.
\<close>

lemma sol_loop_exhausted:
  assumes "failures (sol_attempt pk conn) 3 w \<noteq> None"
  shows "\<exists>w2 err w3. failures (sol_attempt pk conn) 2 w = Some w2 \<and>
           sol_attempt pk conn w2 = (Inl err, w3) \<and> sol_loop pk conn 0 a w = (Inl err, w3)"
proof -
  have "failures (sol_attempt pk conn) (Suc 2) w \<noteq> None"
    using assms by (simp add: numeral_3_eq_3)
  then obtain w2 err w3 where
    f: "failures (sol_attempt pk conn) 2 w = Some w2" and
    l: "sol_attempt pk conn w2 = (Inl err, w3)"
    using failures_Suc_end by blast
  have "sol_loop pk conn 0 a w = sol_loop pk conn (0 + 2) a w2"
    using f by (rule sol_loop_after_failures) simp
  also have "\<dots> = sol_loop pk conn 2 a w2"
    by (simp only: add_0)
  also have "\<dots> = (Inl err, w3)"
    using l by (rule sol_loop_last_failure)
  finally have "sol_loop pk conn 0 a w = (Inl err, w3)" .
  with f l show ?thesis by blast
qed

text \<open>Three failures in a row: the GOLD loop ends with 0.\<close>

lemma gold_loop_exhausted:
  assumes "failures attempt 3 w \<noteq> None"
  shows "\<exists>w2 err w3. failures attempt 2 w = Some w2 \<and>
           attempt w2 = (Inl err, w3) \<and> gold_loop attempt 0 a w = (0, w3)"
proof -
  have "failures attempt (Suc 2) w \<noteq> None"
    using assms by (simp add: numeral_3_eq_3)
  then obtain w2 err w3 where
    f: "failures attempt 2 w = Some w2" and
    l: "attempt w2 = (Inl err, w3)"
    using failures_Suc_end by blast
  have "gold_loop attempt 0 a w = gold_loop attempt (0 + 2) a w2"
    using f by (rule gold_loop_after_failures) simp
  also have "\<dots> = gold_loop attempt 2 a w2"
    by (simp only: add_0)
  also have "\<dots> = (0, w3)"
    using l by (rule gold_loop_last_failure)
  finally have "gold_loop attempt 0 a w = (0, w3)" .
  with f l show ?thesis by blast
qed

lemma sol_loop_after_k:
  assumes "k < 3" "failures (sol_attempt pk conn) k w = Some wk"
    "sol_attempt pk conn wk = (Inr v, w')"
  shows "sol_loop pk conn 0 a w = (Inr v, w')"
proof -
  have "sol_loop pk conn 0 a w = sol_loop pk conn (0 + k) a wk"
    using assms(2) by (rule sol_loop_after_failures) (use assms(1) in simp)
  then show ?thesis using assms(1,3) by (simp add: sol_loop_success)
qed

lemma gold_loop_after_k:
  assumes "k < 3" "failures attempt k w = Some wk" "attempt wk = (Inr v, w')"
  shows "gold_loop attempt 0 a w = (v, w')"
proof -
  have "gold_loop attempt 0 a w = gold_loop attempt (0 + k) a wk"
    using assms(2) by (rule gold_loop_after_failures) (use assms(1) in simp)
  then show ?thesis using assms(1,3) by (simp add: gold_loop_success)
qed

section \<open>Retry: success after k failures\<close>

text \<open>
  C8. For each of the retry loops (the SOL loop, the GOLD loop of getTokenBalance and the
  GOLD loop of getAllTokenBalances) and every k < 3: when the attempt fails exactly k
  times and then succeeds, the loop ends with the value of the successful attempt, in the
  world that attempt leaves, having made exactly k + 1 attempts (k + 1 calls of
  getBalance, respectively of getAssociatedTokenAddress, which opens every GOLD attempt).
\<close>

theorem retry_succeeds_after_k_failures:
  assumes "k < 3"
  shows "(failures (sol_attempt pk conn) k w = Some ws \<and>
          sol_attempt pk conn ws = (Inr vs, ws') \<longrightarrow>
            sol_loop pk conn 0 0 w = (Inr vs, ws') \<and>
            n_getBalance ws' = n_getBalance w + (k + 1)) \<and>
         (failures (gold_attempt_one tok m pk conn) k w = Some wo \<and>
          gold_attempt_one tok m pk conn wo = (Inr vo, wo') \<longrightarrow>
            gold_loop (gold_attempt_one tok m pk conn) 0 0 w = (vo, wo') \<and>
            n_getAssociatedTokenAddress wo' = n_getAssociatedTokenAddress w + (k + 1)) \<and>
         (failures (gold_attempt_all tok m pk conn) k w = Some wa \<and>
          gold_attempt_all tok m pk conn wa = (Inr va, wa') \<longrightarrow>
            gold_loop (gold_attempt_all tok m pk conn) 0 0 w = (va, wa') \<and>
            n_getAssociatedTokenAddress wa' = n_getAssociatedTokenAddress w + (k + 1))"
proof (intro conjI impI)
  assume h: "failures (sol_attempt pk conn) k w = Some ws \<and>
             sol_attempt pk conn ws = (Inr vs, ws')"
  then show "sol_loop pk conn 0 0 w = (Inr vs, ws')"
    using assms sol_loop_after_k by blast
  from h show "n_getBalance ws' = n_getBalance w + (k + 1)"
    using sol_failures_count [of pk conn k w ws] sol_attempt_world [of pk conn ws "Inr vs" ws']
    by simp
next
  assume h: "failures (gold_attempt_one tok m pk conn) k w = Some wo \<and>
             gold_attempt_one tok m pk conn wo = (Inr vo, wo')"
  then show "gold_loop (gold_attempt_one tok m pk conn) 0 0 w = (vo, wo')"
    using assms gold_loop_after_k by blast
  from h show "n_getAssociatedTokenAddress wo' = n_getAssociatedTokenAddress w + (k + 1)"
    using gold_one_failures_count [of tok m pk conn k w wo]
      gold_attempt_one_counts [of tok m pk conn wo "Inr vo" wo']
    by simp
next
  assume h: "failures (gold_attempt_all tok m pk conn) k w = Some wa \<and>
             gold_attempt_all tok m pk conn wa = (Inr va, wa')"
  then show "gold_loop (gold_attempt_all tok m pk conn) 0 0 w = (va, wa')"
    using assms gold_loop_after_k by blast
  from h show "n_getAssociatedTokenAddress wa' = n_getAssociatedTokenAddress w + (k + 1)"
    using gold_all_failures_count [of tok m pk conn k w wa]
      gold_attempt_all_counts [of tok m pk conn wa "Inr va" wa']
    by simp
qed

theorem retry_succeeds_after_k_failures_witness:
  "(2::nat) < 3 \<and>
   failures (sol_attempt wallet ledger_flaky) 2 world0 =
     Some (world0\<lparr>n_getBalance := 2, slept_ms := 2000\<rparr>) \<and>
   sol_attempt wallet ledger_flaky (world0\<lparr>n_getBalance := 2, slept_ms := 2000\<rparr>) =
     (Inr (3 / 2), world0\<lparr>n_getBalance := 3, slept_ms := 2000\<rparr>) \<and>
   sol_loop wallet ledger_flaky 0 0 world0 =
     (Inr (3 / 2), world0\<lparr>n_getBalance := 3, slept_ms := 2000\<rparr>) \<and>
   fst (gold_loop (gold_attempt_one tokens0 gold_mint wallet ledger_flaky) 0 0 world0) = 2 \<and>
   fst (gold_loop (gold_attempt_all tokens0 gold_mint wallet ledger_flaky) 0 0 world0) = 2"
proof -
  let ?w2 = "world0\<lparr>n_getBalance := 2, slept_ms := 2000\<rparr>"
  let ?w3 = "world0\<lparr>n_getBalance := 3, slept_ms := 2000\<rparr>"
  let ?g2 = "world0\<lparr>n_getAssociatedTokenAddress := 2, n_getAccountInfo := 2, slept_ms := 2000\<rparr>"
  let ?g3 = "world0\<lparr>n_getAssociatedTokenAddress := 3, n_getAccountInfo := 3, n_getAccount := 1,
                slept_ms := 2000\<rparr>"
  have k: "(2::nat) < 3" by simp
  have s1: "failures (sol_attempt wallet ledger_flaky) 2 world0 = Some ?w2"
    by (simp add: numeral_2_eq_2 sol_attempt_def call_getBalance_def ledger_flaky_def
        world0_def backoff_def)
  have s2: "sol_attempt wallet ledger_flaky ?w2 = (Inr (3 / 2), ?w3)"
    by (simp add: sol_attempt_def call_getBalance_def ledger_flaky_def world0_def
        LAMPORTS_PER_SOL_def)
  have o1: "failures (gold_attempt_one tokens0 gold_mint wallet ledger_flaky) 2 world0 = Some ?g2"
    by (simp add: numeral_2_eq_2 gold_attempt_one_def call_getAssociatedTokenAddress_def
        call_getAccountInfo_def ledger_flaky_def world0_def backoff_def)
  have o2: "gold_attempt_one tokens0 gold_mint wallet ledger_flaky ?g2 = (Inr 2, ?g3)"
    by (simp add: gold_attempt_one_def call_getAssociatedTokenAddress_def
        call_getAccountInfo_def call_getAccount_def ledger_flaky_def world0_def tokens0_def)
  have a1: "failures (gold_attempt_all tokens0 gold_mint wallet ledger_flaky) 2 world0 = Some ?g2"
    by (simp add: numeral_2_eq_2 gold_attempt_all_def call_getAssociatedTokenAddress_def
        call_getAccountInfo_def ledger_flaky_def world0_def backoff_def)
  have a2: "gold_attempt_all tokens0 gold_mint wallet ledger_flaky ?g2 = (Inr 2, ?g3)"
    by (simp add: gold_attempt_all_def call_getAssociatedTokenAddress_def
        call_getAccountInfo_def call_getAccount_def ledger_flaky_def world0_def tokens0_def)
  from retry_succeeds_after_k_failures [OF k, of wallet ledger_flaky world0 ?w2 "3 / 2" ?w3
      tokens0 gold_mint ?g2 2 ?g3 ?g2 2 ?g3] s1 s2 o1 o2 a1 a2 k
  show ?thesis by simp
qed

section \<open>Retry: every attempt fails\<close>

text \<open>A SOL attempt fails with the error of its balance request.\<close>

lemma sol_attempt_error:
  "sol_attempt pk conn w = (Inl err, w') \<Longrightarrow> getBalance conn pk (n_getBalance w) = Inl err"
  by (auto simp: sol_attempt_def call_getBalance_def split: sum.splits)

text \<open>
  C5, as the code has it. When the attempt fails three times in a row, each retry loop
  makes exactly three attempts, with two waits of 1000 ms between them. The two GOLD loops
  then end with the fallback 0 and throw nothing. The SOL loop has no fallback: it throws
  the error of its third attempt, the one the third balance request failed with, to the
  handler around it, in the world that attempt leaves.
\<close>

theorem retry_exhausted:
  "(failures (gold_attempt_one tok m pk conn) 3 w \<noteq> None \<longrightarrow>
      fst (gold_loop (gold_attempt_one tok m pk conn) 0 0 w) = 0 \<and>
      n_getAssociatedTokenAddress (snd (gold_loop (gold_attempt_one tok m pk conn) 0 0 w)) =
        n_getAssociatedTokenAddress w + 3 \<and>
      slept_ms (snd (gold_loop (gold_attempt_one tok m pk conn) 0 0 w)) = slept_ms w + 2000) \<and>
   (failures (gold_attempt_all tok m pk conn) 3 w \<noteq> None \<longrightarrow>
      fst (gold_loop (gold_attempt_all tok m pk conn) 0 0 w) = 0 \<and>
      n_getAssociatedTokenAddress (snd (gold_loop (gold_attempt_all tok m pk conn) 0 0 w)) =
        n_getAssociatedTokenAddress w + 3 \<and>
      slept_ms (snd (gold_loop (gold_attempt_all tok m pk conn) 0 0 w)) = slept_ms w + 2000) \<and>
   (failures (sol_attempt pk conn) 3 w \<noteq> None \<longrightarrow>
      (\<exists>w2 err w3.
         failures (sol_attempt pk conn) 2 w = Some w2 \<and>
         sol_attempt pk conn w2 = (Inl err, w3) \<and>
         getBalance conn pk (n_getBalance w + 2) = Inl err \<and>
         sol_loop pk conn 0 0 w = (Inl err, w3)) \<and>
      n_getBalance (snd (sol_loop pk conn 0 0 w)) = n_getBalance w + 3 \<and>
      slept_ms (snd (sol_loop pk conn 0 0 w)) = slept_ms w + 2000)"
proof (intro conjI impI)
  let ?one = "gold_attempt_one tok m pk conn"
  assume "failures ?one 3 w \<noteq> None"
  then obtain w2 err w3 where
    f: "failures ?one 2 w = Some w2" and l: "?one w2 = (Inl err, w3)" and
    r: "gold_loop ?one 0 0 w = (0, w3)"
    using gold_loop_exhausted by blast
  show "fst (gold_loop ?one 0 0 w) = 0" by (simp add: r)
  show "n_getAssociatedTokenAddress (snd (gold_loop ?one 0 0 w)) =
        n_getAssociatedTokenAddress w + 3"
    using gold_one_failures_count [OF f] gold_attempt_one_counts [OF l] by (simp add: r)
  have "slept_ms w2 = slept_ms w + 1000 * 2"
    using f by (rule failures_slept [rotated]) (simp add: gold_attempt_one_counts)
  then show "slept_ms (snd (gold_loop ?one 0 0 w)) = slept_ms w + 2000"
    using gold_attempt_one_counts [OF l] by (simp add: r)
next
  let ?all = "gold_attempt_all tok m pk conn"
  assume "failures ?all 3 w \<noteq> None"
  then obtain w2 err w3 where
    f: "failures ?all 2 w = Some w2" and l: "?all w2 = (Inl err, w3)" and
    r: "gold_loop ?all 0 0 w = (0, w3)"
    using gold_loop_exhausted by blast
  show "fst (gold_loop ?all 0 0 w) = 0" by (simp add: r)
  show "n_getAssociatedTokenAddress (snd (gold_loop ?all 0 0 w)) =
        n_getAssociatedTokenAddress w + 3"
    using gold_all_failures_count [OF f] gold_attempt_all_counts [OF l] by (simp add: r)
  have "slept_ms w2 = slept_ms w + 1000 * 2"
    using f by (rule failures_slept [rotated]) (simp add: gold_attempt_all_counts)
  then show "slept_ms (snd (gold_loop ?all 0 0 w)) = slept_ms w + 2000"
    using gold_attempt_all_counts [OF l] by (simp add: r)
next
  let ?sol = "sol_attempt pk conn"
  assume "failures ?sol 3 w \<noteq> None"
  then obtain w2 err w3 where
    f: "failures ?sol 2 w = Some w2" and l: "?sol w2 = (Inl err, w3)" and
    r: "sol_loop pk conn 0 0 w = (Inl err, w3)"
    using sol_loop_exhausted by blast
  have "getBalance conn pk (n_getBalance w2) = Inl err"
    using l by (rule sol_attempt_error)
  then have "getBalance conn pk (n_getBalance w + 2) = Inl err"
    using sol_failures_count [OF f] by simp
  with f l r show "\<exists>w2 err w3.
      failures (sol_attempt pk conn) 2 w = Some w2 \<and>
      sol_attempt pk conn w2 = (Inl err, w3) \<and>
      getBalance conn pk (n_getBalance w + 2) = Inl err \<and>
      sol_loop pk conn 0 0 w = (Inl err, w3)"
    by blast
  show "n_getBalance (snd (sol_loop pk conn 0 0 w)) = n_getBalance w + 3"
    using sol_failures_count [OF f] sol_attempt_world [OF l] by (simp add: r)
  have "slept_ms w2 = slept_ms w + 1000 * 2"
    using f by (rule failures_slept [rotated]) (auto dest: sol_attempt_world)
  then show "slept_ms (snd (sol_loop pk conn 0 0 w)) = slept_ms w + 2000"
    using sol_attempt_world [OF l] by (simp add: r)
qed

lemma failures_down_sol: "failures (sol_attempt wallet ledger_down) 3 world0 \<noteq> None"
  by (simp add: numeral_3_eq_3 sol_attempt_def call_getBalance_def ledger_down_def)

lemma failures_down_one:
  "failures (gold_attempt_one tokens0 gold_mint wallet ledger_down) 3 world0 \<noteq> None"
  by (simp add: numeral_3_eq_3 gold_attempt_one_def call_getAssociatedTokenAddress_def
      ledger_down_def)

lemma failures_down_all:
  "failures (gold_attempt_all tokens0 gold_mint wallet ledger_down) 3 world0 \<noteq> None"
  by (simp add: numeral_3_eq_3 gold_attempt_all_def call_getAssociatedTokenAddress_def
      ledger_down_def)

lemma failures_numbered_sol:
  "failures (sol_attempt wallet ledger_down_numbered) 3 world0 \<noteq> None"
  by (simp add: numeral_3_eq_3 sol_attempt_def call_getBalance_def ledger_down_numbered_def
      ledger_down_def)

lemma failures_numbered_one:
  "failures (gold_attempt_one tokens0 gold_mint wallet ledger_down_numbered) 3 world0 \<noteq> None"
  by (simp add: numeral_3_eq_3 gold_attempt_one_def call_getAssociatedTokenAddress_def
      ledger_down_numbered_def ledger_down_def)

lemma failures_numbered_all:
  "failures (gold_attempt_all tokens0 gold_mint wallet ledger_down_numbered) 3 world0 \<noteq> None"
  by (simp add: numeral_3_eq_3 gold_attempt_all_def call_getAssociatedTokenAddress_def
      ledger_down_numbered_def ledger_down_def)

theorem retry_exhausted_witness:
  "failures (gold_attempt_one tokens0 gold_mint wallet ledger_down_numbered) 3 world0 \<noteq> None \<and>
   failures (gold_attempt_all tokens0 gold_mint wallet ledger_down_numbered) 3 world0 \<noteq> None \<and>
   failures (sol_attempt wallet ledger_down_numbered) 3 world0 \<noteq> None \<and>
   fst (gold_loop (gold_attempt_one tokens0 gold_mint wallet ledger_down_numbered) 0 0 world0)
     = 0 \<and>
   n_getAssociatedTokenAddress
     (snd (gold_loop (gold_attempt_one tokens0 gold_mint wallet ledger_down_numbered) 0 0
        world0)) = 3 \<and>
   fst (gold_loop (gold_attempt_all tokens0 gold_mint wallet ledger_down_numbered) 0 0 world0)
     = 0 \<and>
   n_getAssociatedTokenAddress
     (snd (gold_loop (gold_attempt_all tokens0 gold_mint wallet ledger_down_numbered) 0 0
        world0)) = 3 \<and>
   getBalance ledger_down_numbered wallet 2 = Inl (Error ''third timeout'') \<and>
   fst (sol_loop wallet ledger_down_numbered 0 0 world0) = Inl (Error ''third timeout'') \<and>
   n_getBalance (snd (sol_loop wallet ledger_down_numbered 0 0 world0)) = 3 \<and>
   slept_ms (snd (sol_loop wallet ledger_down_numbered 0 0 world0)) = 2000"
proof -
  have third: "getBalance ledger_down_numbered wallet 2 = Inl (Error ''third timeout'')"
    by (simp add: ledger_down_numbered_def ledger_down_def)
  have n0: "n_getBalance world0 = 0" "n_getAssociatedTokenAddress world0 = 0"
    "slept_ms world0 = 0"
    by (simp_all add: world0_def)
  note all = retry_exhausted [of tokens0 gold_mint wallet ledger_down_numbered world0]
  from all failures_numbered_sol obtain w3 err where
    e: "getBalance ledger_down_numbered wallet (n_getBalance world0 + 2) = Inl err" and
    r: "sol_loop wallet ledger_down_numbered 0 0 world0 = (Inl err, w3)"
    by blast
  from e have "err = Error ''third timeout''"
    by (simp add: n0 ledger_down_numbered_def ledger_down_def)
  with r have thrown:
    "fst (sol_loop wallet ledger_down_numbered 0 0 world0) = Inl (Error ''third timeout'')"
    by simp
  from all failures_numbered_one have one:
    "fst (gold_loop (gold_attempt_one tokens0 gold_mint wallet ledger_down_numbered) 0 0 world0)
       = 0 \<and>
     n_getAssociatedTokenAddress
       (snd (gold_loop (gold_attempt_one tokens0 gold_mint wallet ledger_down_numbered) 0 0
          world0)) = 3"
    by (simp add: n0)
  from all failures_numbered_all have every:
    "fst (gold_loop (gold_attempt_all tokens0 gold_mint wallet ledger_down_numbered) 0 0 world0)
       = 0 \<and>
     n_getAssociatedTokenAddress
       (snd (gold_loop (gold_attempt_all tokens0 gold_mint wallet ledger_down_numbered) 0 0
          world0)) = 3"
    by (simp add: n0)
  from all failures_numbered_sol have sol:
    "n_getBalance (snd (sol_loop wallet ledger_down_numbered 0 0 world0)) = 3 \<and>
     slept_ms (snd (sol_loop wallet ledger_down_numbered 0 0 world0)) = 2000"
    by (simp add: n0)
  from one every sol third thrown failures_numbered_sol failures_numbered_one
    failures_numbered_all
  show ?thesis by blast
qed

text \<open>
  C5 as stated fails for the SOL loop: with a ledger whose balance requests all fail, the
  loop ends by throwing the error of the third attempt, not with a fallback value.
\<close>

theorem sol_retry_propagates_failure:
  "failures (sol_attempt wallet ledger_sol_down) 3 world0 \<noteq> None \<and>
   fst (sol_loop wallet ledger_sol_down 0 0 world0) = Inl (Error ''timeout'') \<and>
   fst (fetch_all tokens0 wallet ledger_sol_down world0) = Inl (Error ''timeout'')"
  by (simp add: numeral_3_eq_3 fetch_all_def sol_attempt_def call_getBalance_def
      ledger_sol_down_def ledger_ok_def world0_def backoff_def sol_loop.simps)

section \<open>Refreshing one asset when every attempt fails\<close>

text \<open>
  C2, as the code has it. When all three attempts fail, getTokenBalance for GOLD (with a
  mint that is a public key) stores 0 for GOLD, leaves the SOL entry as it was and clears
  isLoading. For SOL the third error reaches the outer handler, which clears isLoading
  and nothing else: both stored balances stay as they were.
\<close>

theorem getTokenBalance_exhausted:
  "(GOLD_mint tok = Inr m \<and> failures (gold_attempt_one tok m pk conn) 3 w \<noteq> None \<longrightarrow>
      fst (getTokenBalance tok pk conn Sym_GOLD (s, w)) =
        s\<lparr>balances := (balances s)\<lparr>GOLD := 0\<rparr>, isLoading := False\<rparr>) \<and>
   (failures (sol_attempt pk conn) 3 w \<noteq> None \<longrightarrow>
      fst (getTokenBalance tok pk conn Sym_SOL (s, w)) = s\<lparr>isLoading := False\<rparr>)"
proof (intro conjI impI)
  assume h: "GOLD_mint tok = Inr m \<and> failures (gold_attempt_one tok m pk conn) 3 w \<noteq> None"
  then obtain w3 where "gold_loop (gold_attempt_one tok m pk conn) 0 0 w = (0, w3)"
    using gold_loop_exhausted by blast
  with h show "fst (getTokenBalance tok pk conn Sym_GOLD (s, w)) =
      s\<lparr>balances := (balances s)\<lparr>GOLD := 0\<rparr>, isLoading := False\<rparr>"
    by (simp add: getTokenBalance_def fetch_one_def set_balance_def)
next
  assume "failures (sol_attempt pk conn) 3 w \<noteq> None"
  then obtain err w3 where "sol_loop pk conn 0 0 w = (Inl err, w3)"
    using sol_loop_exhausted by blast
  then show "fst (getTokenBalance tok pk conn Sym_SOL (s, w)) = s\<lparr>isLoading := False\<rparr>"
    by (simp add: getTokenBalance_def fetch_one_def)
qed

theorem getTokenBalance_exhausted_witness:
  "GOLD_mint tokens0 = Inr gold_mint \<and>
   failures (gold_attempt_one tokens0 gold_mint wallet ledger_down) 3 world0 \<noteq> None \<and>
   failures (sol_attempt wallet ledger_down) 3 world0 \<noteq> None \<and>
   fst (getTokenBalance tokens0 wallet ledger_down Sym_GOLD (stale_state, world0)) =
     \<lparr>balances = \<lparr>SOL = 5, GOLD = 0\<rparr>, isLoading = False\<rparr> \<and>
   fst (getTokenBalance tokens0 wallet ledger_down Sym_SOL (stale_state, world0)) =
     \<lparr>balances = \<lparr>SOL = 5, GOLD = 7\<rparr>, isLoading = False\<rparr>"
  using getTokenBalance_exhausted [of tokens0 gold_mint wallet ledger_down world0 stale_state]
    failures_down_sol failures_down_one
  by (simp add: tokens0_def stale_state_def)

text \<open>
  C2 as stated fails for SOL: the store holds 5 SOL, every balance request fails, and
  after getTokenBalance the store still holds 5 SOL.
\<close>

theorem getTokenBalance_SOL_keeps_stale_balance:
  "failures (sol_attempt wallet ledger_sol_down) 3 world0 \<noteq> None \<and>
   SOL (balances (fst (getTokenBalance tokens0 wallet ledger_sol_down Sym_SOL
     (stale_state, world0)))) = 5"
  by (simp add: numeral_3_eq_3 getTokenBalance_def fetch_one_def sol_attempt_def
      call_getBalance_def ledger_sol_down_def ledger_ok_def world0_def backoff_def
      sol_loop.simps stale_state_def)

lemma failures_keeps:
  assumes step: "\<And>w r w'. attempt w = (r, w') \<Longrightarrow> c w' = c w"
    and wait: "\<And>w. c (backoff 1000 w) = c w"
  shows "failures attempt k w = Some wk \<Longrightarrow> c wk = c w"
proof (induction k arbitrary: w)
  case 0
  then show ?case by simp
next
  case (Suc k)
  from Suc.prems obtain err w' where
    att: "attempt w = (Inl err, w')" and
    rest: "failures attempt k (backoff 1000 w') = Some wk"
    by (auto split: prod.splits sum.splits)
  from Suc.IH [OF rest] step [OF att] wait show ?case by simp
qed

lemma gold_all_failures_keep:
  assumes "failures (gold_attempt_all tok m pk conn) k w = Some wk"
  shows "dispatched wk = dispatched w \<and> window_defined wk = window_defined w"
proof
  show "dispatched wk = dispatched w"
    using assms by (rule failures_keeps [rotated 2])
      (auto dest: gold_attempt_all_counts simp: backoff_def)
  show "window_defined wk = window_defined w"
    using assms by (rule failures_keeps [rotated 2])
      (auto dest: gold_attempt_all_counts simp: backoff_def)
qed

text \<open>The SOL loop asks for balances and waits; it does nothing else to the world.\<close>

lemma sol_loop_keeps:
  "sol_loop pk conn i a w = (r, w') \<Longrightarrow>
   n_getAssociatedTokenAddress w' = n_getAssociatedTokenAddress w \<and>
   dispatched w' = dispatched w \<and> window_defined w' = window_defined w"
proof (induction pk conn i a w rule: sol_loop.induct)
  case (1 pk conn i solAmount w)
  show ?case
  proof (cases "i < 3")
    case False
    with "1.prems" show ?thesis by (simp add: sol_loop.simps)
  next
    case True
    obtain x wx where att: "sol_attempt pk conn w = (x, wx)" by (cases "sol_attempt pk conn w")
    note wx = sol_attempt_world [OF att]
    show ?thesis
    proof (cases x)
      case (Inr v)
      with "1.prems" True att wx show ?thesis by (auto simp: sol_loop.simps)
    next
      case (Inl err)
      show ?thesis
      proof (cases "i = 2")
        case True
        with "1.prems" att Inl wx show ?thesis by (auto simp: sol_loop.simps)
      next
        case False
        with "1.prems" \<open>i < 3\<close> att Inl
        have "sol_loop pk conn (i + 1) solAmount (backoff 1000 wx) = (r, w')"
          by (simp add: sol_loop.simps)
        from "1.IH" [OF \<open>i < 3\<close> att [symmetric] Inl False this] wx
        show ?thesis by (simp add: backoff_def)
      qed
    qed
  qed
qed

section \<open>Refreshing all assets when one fetch fails\<close>

text \<open>
  C1, as the code has it. The SOL fetch runs first, with its own three attempts. When it
  succeeds (and the mint is a public key), its value is the SOL entry of the snapshot
  whatever the GOLD fetch does; when the GOLD fetch fails three times, the snapshot holds
  that SOL value with GOLD 0, and it is published and announced. When the SOL fetch fails
  three times, the call ends in its outer handler: the GOLD fetch is not made, the
  balances stay as they were and no event is dispatched.
\<close>

theorem getAllTokenBalances_failure_isolation:
  "(GOLD_mint tok = Inr m \<and> sol_loop pk conn 0 0 w = (Inr v, w1) \<longrightarrow>
      SOL (balances (fst (getAllTokenBalances tok (Some pk) (Some conn) (s, w)))) = v \<and>
      (failures (gold_attempt_all tok m pk conn) 3 w1 \<noteq> None \<longrightarrow>
         fst (getAllTokenBalances tok (Some pk) (Some conn) (s, w)) =
           s\<lparr>balances := \<lparr>SOL = v, GOLD = 0\<rparr>, isLoading := False\<rparr> \<and>
         (window_defined w \<longrightarrow>
            dispatched (snd (getAllTokenBalances tok (Some pk) (Some conn) (s, w))) =
              dispatched w @ [\<lparr>SOL = v, GOLD = 0\<rparr>]))) \<and>
   (failures (sol_attempt pk conn) 3 w \<noteq> None \<longrightarrow>
      fst (getAllTokenBalances tok (Some pk) (Some conn) (s, w)) = s\<lparr>isLoading := False\<rparr> \<and>
      n_getAssociatedTokenAddress (snd (getAllTokenBalances tok (Some pk) (Some conn) (s, w))) =
        n_getAssociatedTokenAddress w \<and>
      dispatched (snd (getAllTokenBalances tok (Some pk) (Some conn) (s, w))) = dispatched w)"
proof (intro conjI impI)
  let ?R = "getAllTokenBalances tok (Some pk) (Some conn) (s, w)"
  assume h: "GOLD_mint tok = Inr m \<and> sol_loop pk conn 0 0 w = (Inr v, w1)"
  then show "SOL (balances (fst ?R)) = v"
    by (simp add: getAllTokenBalances_def getAllTokenBalances_enter_def
        getAllTokenBalances_run_def fetch_all_def split: prod.splits)
  assume "failures (gold_attempt_all tok m pk conn) 3 w1 \<noteq> None"
  then obtain w2 err w3 where
    f: "failures (gold_attempt_all tok m pk conn) 2 w1 = Some w2" and
    l: "gold_attempt_all tok m pk conn w2 = (Inl err, w3)" and
    r: "gold_loop (gold_attempt_all tok m pk conn) 0 0 w1 = (0, w3)"
    using gold_loop_exhausted by blast
  have R: "?R = (s\<lparr>balances := \<lparr>SOL = v, GOLD = 0\<rparr>, isLoading := False\<rparr>,
                 dispatchEvent \<lparr>SOL = v, GOLD = 0\<rparr> w3)"
    using h r by (simp add: getAllTokenBalances_def getAllTokenBalances_enter_def
        getAllTokenBalances_run_def fetch_all_def)
  show "fst ?R = s\<lparr>balances := \<lparr>SOL = v, GOLD = 0\<rparr>, isLoading := False\<rparr>"
    by (simp add: R)
  assume win: "window_defined w"
  have "dispatched w2 = dispatched w1 \<and> window_defined w2 = window_defined w1"
    using gold_all_failures_keep [OF f] by simp
  moreover have "dispatched w3 = dispatched w2 \<and> window_defined w3 = window_defined w2"
    using gold_attempt_all_counts [OF l] by simp
  moreover have "dispatched w1 = dispatched w \<and> window_defined w1 = window_defined w"
    using h sol_loop_keeps by blast
  ultimately show "dispatched (snd ?R) = dispatched w @ [\<lparr>SOL = v, GOLD = 0\<rparr>]"
    using win by (simp add: R dispatchEvent_def)
next
  let ?R = "getAllTokenBalances tok (Some pk) (Some conn) (s, w)"
  assume "failures (sol_attempt pk conn) 3 w \<noteq> None"
  then obtain err w3 where r: "sol_loop pk conn 0 0 w = (Inl err, w3)"
    using sol_loop_exhausted by blast
  then have R: "?R = (s\<lparr>isLoading := False\<rparr>, w3)"
    by (simp add: getAllTokenBalances_def getAllTokenBalances_enter_def
        getAllTokenBalances_run_def fetch_all_def)
  show "fst ?R = s\<lparr>isLoading := False\<rparr>" by (simp add: R)
  show "n_getAssociatedTokenAddress (snd ?R) = n_getAssociatedTokenAddress w"
    using sol_loop_keeps [OF r] by (simp add: R)
  show "dispatched (snd ?R) = dispatched w"
    using sol_loop_keeps [OF r] by (simp add: R)
qed

lemma sol_loop_gold_down:
  "sol_loop wallet ledger_gold_down 0 0 world0 = (Inr (3 / 2), world0\<lparr>n_getBalance := 1\<rparr>)"
  by (simp add: sol_loop.simps sol_attempt_def call_getBalance_def ledger_gold_down_def
      ledger_ok_def world0_def LAMPORTS_PER_SOL_def)

lemma failures_gold_down:
  "failures (gold_attempt_all tokens0 gold_mint wallet ledger_gold_down) 3
     (world0\<lparr>n_getBalance := 1\<rparr>) \<noteq> None"
  by (simp add: numeral_3_eq_3 gold_attempt_all_def call_getAssociatedTokenAddress_def
      call_getAccountInfo_def ledger_gold_down_def ledger_ok_def)

theorem getAllTokenBalances_failure_isolation_witness:
  "GOLD_mint tokens0 = Inr gold_mint \<and>
   sol_loop wallet ledger_gold_down 0 0 world0 = (Inr (3 / 2), world0\<lparr>n_getBalance := 1\<rparr>) \<and>
   failures (gold_attempt_all tokens0 gold_mint wallet ledger_gold_down) 3
     (world0\<lparr>n_getBalance := 1\<rparr>) \<noteq> None \<and>
   window_defined world0 \<and>
   fst (getAllTokenBalances tokens0 (Some wallet) (Some ledger_gold_down) (stale_state, world0)) =
     \<lparr>balances = \<lparr>SOL = 3 / 2, GOLD = 0\<rparr>, isLoading = False\<rparr> \<and>
   dispatched (snd (getAllTokenBalances tokens0 (Some wallet) (Some ledger_gold_down)
     (stale_state, world0))) = [\<lparr>SOL = 3 / 2, GOLD = 0\<rparr>] \<and>
   failures (sol_attempt wallet ledger_down) 3 world0 \<noteq> None \<and>
   fst (getAllTokenBalances tokens0 (Some wallet) (Some ledger_down) (stale_state, world0)) =
     stale_state"
  using getAllTokenBalances_failure_isolation [of tokens0 gold_mint wallet ledger_gold_down
      world0 "3 / 2" "world0\<lparr>n_getBalance := 1\<rparr>" stale_state]
    getAllTokenBalances_failure_isolation [of tokens0 gold_mint wallet ledger_down
      world0 "3 / 2" "world0\<lparr>n_getBalance := 1\<rparr>" stale_state]
    sol_loop_gold_down failures_gold_down failures_down_sol
  by (simp add: tokens0_def stale_state_def world0_def)

text \<open>
  C1 as stated fails when SOL is the asset whose fetch fails: the token account holds 2
  GOLD and can be read, yet after three failed balance requests the call has asked
  nothing about the token account, the store still holds the old 7 GOLD, and no snapshot
  has been announced.
\<close>

theorem SOL_failure_blocks_GOLD:
  "failures (sol_attempt wallet ledger_sol_down) 3 world0 \<noteq> None \<and>
   gold_attempt_all tokens0 gold_mint wallet ledger_sol_down world0 =
     (Inr 2, world0\<lparr>n_getAssociatedTokenAddress := 1, n_getAccountInfo := 1,
        n_getAccount := 1\<rparr>) \<and>
   n_getAssociatedTokenAddress (snd (getAllTokenBalances tokens0 (Some wallet)
     (Some ledger_sol_down) (stale_state, world0))) = 0 \<and>
   GOLD (balances (fst (getAllTokenBalances tokens0 (Some wallet) (Some ledger_sol_down)
     (stale_state, world0)))) = 7 \<and>
   dispatched (snd (getAllTokenBalances tokens0 (Some wallet) (Some ledger_sol_down)
     (stale_state, world0))) = []"
  by (simp add: numeral_3_eq_3 getAllTokenBalances_def getAllTokenBalances_enter_def
      getAllTokenBalances_run_def fetch_all_def sol_attempt_def gold_attempt_all_def
      call_getBalance_def call_getAssociatedTokenAddress_def call_getAccountInfo_def
      call_getAccount_def ledger_sol_down_def ledger_ok_def world0_def backoff_def
      sol_loop.simps stale_state_def tokens0_def)

section \<open>Calls without a wallet or a connection\<close>

text \<open>
  C10. getAllTokenBalances called without a publicKey or without a connection returns at
  its guard: isLoading is set to false and nothing else changes. The balances are as
  before, and the world is as before: no remote call has been made, no event dispatched.
\<close>

theorem getAllTokenBalances_missing_argument:
  assumes "pko = None \<or> co = None"
  shows "getAllTokenBalances tok pko co (s, w) = (s\<lparr>isLoading := False\<rparr>, w)"
  using assms
  by (auto simp: getAllTokenBalances_def getAllTokenBalances_enter_def split: option.splits)

theorem getAllTokenBalances_missing_argument_witness:
  "getAllTokenBalances tokens0 None (Some ledger_ok) (stale_state\<lparr>isLoading := True\<rparr>, world0) =
     (stale_state, world0) \<and>
   getAllTokenBalances tokens0 (Some wallet) None (stale_state\<lparr>isLoading := True\<rparr>, world0) =
     (stale_state, world0)"
  using getAllTokenBalances_missing_argument [of None "Some ledger_ok" tokens0
      "stale_state\<lparr>isLoading := True\<rparr>" world0]
    getAllTokenBalances_missing_argument [of "Some wallet" None tokens0
      "stale_state\<lparr>isLoading := True\<rparr>" world0]
  by (simp add: stale_state_def)

section \<open>The price cache on a failed transport\<close>

text \<open>
  C6. When the request for the prices fails, or the body of the response cannot be read
  as JSON, fetchPriceData leaves the cached price map exactly as it was.
\<close>

theorem fetchPriceData_transport_failure:
  "fetchPriceData (Inl err) priceMap = priceMap \<and>
   fetchPriceData (Inr (Inl err)) priceMap = priceMap"
  by (simp add: fetchPriceData_def)

section \<open>Balances are never negative\<close>

lemma sol_attempt_nonneg:
  assumes "nonneg_ledger conn" "sol_attempt pk conn w = (Inr v, w')"
  shows "0 \<le> v"
proof -
  from assms(2) obtain x where
    x: "getBalance conn pk (n_getBalance w) = Inr x" and v: "v = of_int x / LAMPORTS_PER_SOL"
    by (auto simp: sol_attempt_def call_getBalance_def split: sum.splits)
  from assms(1) x have "0 \<le> x" by (auto simp: nonneg_ledger_def)
  then show ?thesis by (simp add: v LAMPORTS_PER_SOL_def)
qed

lemma gold_attempt_one_nonneg:
  "nonneg_ledger conn \<Longrightarrow> gold_attempt_one tok m pk conn w = (Inr v, w') \<Longrightarrow> 0 \<le> v"
  by (auto simp: gold_attempt_one_def call_getAssociatedTokenAddress_def
      call_getAccountInfo_def call_getAccount_def nonneg_ledger_def
      split: sum.splits option.splits)

lemma gold_attempt_all_nonneg:
  "nonneg_ledger conn \<Longrightarrow> gold_attempt_all tok m pk conn w = (Inr v, w') \<Longrightarrow> 0 \<le> v"
  by (auto simp: gold_attempt_all_def call_getAssociatedTokenAddress_def
      call_getAccountInfo_def call_getAccount_def nonneg_ledger_def
      split: sum.splits option.splits if_splits)

lemma sol_loop_nonneg:
  "nonneg_ledger conn \<Longrightarrow> 0 \<le> a \<Longrightarrow> sol_loop pk conn i a w = (Inr v, w') \<Longrightarrow> 0 \<le> v"
proof (induction pk conn i a w rule: sol_loop.induct)
  case (1 pk conn i solAmount w)
  show ?case
  proof (cases "i < 3")
    case False
    with "1.prems" show ?thesis by (auto simp: sol_loop.simps)
  next
    case True
    obtain x wx where att: "sol_attempt pk conn w = (x, wx)" by (cases "sol_attempt pk conn w")
    show ?thesis
    proof (cases x)
      case (Inr u)
      with "1.prems" True att have "u = v" by (auto simp: sol_loop.simps)
      with sol_attempt_nonneg [OF "1.prems"(1)] att Inr show ?thesis by blast
    next
      case (Inl err)
      show ?thesis
      proof (cases "i = 2")
        case True
        with "1.prems" att Inl show ?thesis by (auto simp: sol_loop.simps)
      next
        case False
        with "1.prems" \<open>i < 3\<close> att Inl
        have "sol_loop pk conn (i + 1) solAmount (backoff 1000 wx) = (Inr v, w')"
          by (simp add: sol_loop.simps)
        from "1.IH" [OF \<open>i < 3\<close> att [symmetric] Inl False "1.prems"(1,2) this]
        show ?thesis .
      qed
    qed
  qed
qed

lemma gold_loop_nonneg:
  assumes att: "\<And>w v w'. attempt w = (Inr v, w') \<Longrightarrow> 0 \<le> v"
  shows "0 \<le> a \<Longrightarrow> 0 \<le> fst (gold_loop attempt i a w)"
proof (induction "3 - i" arbitrary: i a w)
  case 0
  then have "\<not> i < 3" by simp
  with "0.prems" show ?case by (simp add: gold_loop.simps)
next
  case (Suc n)
  then have i: "i < 3" and n: "n = 3 - (i + 1)" by simp_all
  obtain x wx where ax: "attempt w = (x, wx)" by (cases "attempt w")
  show ?case
  proof (cases x)
    case (Inr v)
    with ax i att [of w v wx] show ?thesis by (simp add: gold_loop.simps)
  next
    case (Inl err)
    have "0 \<le> fst (gold_loop attempt (i + 1) 0 wx)"
      using Suc.hyps(1) [OF n] by simp
    moreover have "0 \<le> fst (gold_loop attempt (i + 1) a (backoff 1000 wx))"
      using Suc.hyps(1) [OF n Suc.prems] .
    moreover have "gold_loop attempt i a w =
        (if i = 2 then gold_loop attempt (i + 1) 0 wx
         else gold_loop attempt (i + 1) a (backoff 1000 wx))"
      using ax Inl i by (subst gold_loop.simps) simp
    ultimately show ?thesis by (cases "i = 2") simp_all
  qed
qed

lemma getTokenBalance_nonneg:
  assumes "nonneg_ledger conn" "nonneg_balances s"
  shows "nonneg_balances (fst (getTokenBalance tok pk conn tokenSymbol (s, w)))"
proof (cases tokenSymbol)
  case Sym_SOL
  obtain r w' where r: "sol_loop pk conn 0 0 w = (r, w')" by (cases "sol_loop pk conn 0 0 w")
  show ?thesis
  proof (cases r)
    case (Inl err)
    with r Sym_SOL assms(2) show ?thesis
      by (simp add: getTokenBalance_def fetch_one_def nonneg_balances_def)
  next
    case (Inr v)
    with r sol_loop_nonneg [OF assms(1), of 0 pk 0 w v w'] have "0 \<le> v" by simp
    with r Inr Sym_SOL assms(2) show ?thesis
      by (simp add: getTokenBalance_def fetch_one_def nonneg_balances_def set_balance_def)
  qed
next
  case Sym_GOLD
  show ?thesis
  proof (cases "GOLD_mint tok")
    case (Inl err)
    with Sym_GOLD assms(2) show ?thesis
      by (simp add: getTokenBalance_def fetch_one_def nonneg_balances_def)
  next
    case (Inr m)
    have "0 \<le> fst (gold_loop (gold_attempt_one tok m pk conn) 0 0 w)"
      by (rule gold_loop_nonneg) (auto dest: gold_attempt_one_nonneg [OF assms(1)])
    with Inr Sym_GOLD assms(2) show ?thesis
      by (simp add: getTokenBalance_def fetch_one_def nonneg_balances_def set_balance_def
          case_prod_beta)
  qed
qed

lemma getAllTokenBalances_run_nonneg:
  assumes "nonneg_ledger conn" "nonneg_balances s"
  shows "nonneg_balances (fst (getAllTokenBalances_run tok pk conn (s, w)))"
proof -
  obtain r w1 where r: "sol_loop pk conn 0 0 w = (r, w1)" by (cases "sol_loop pk conn 0 0 w")
  show ?thesis
  proof (cases r)
    case (Inl err)
    with r assms(2) show ?thesis
      by (simp add: getAllTokenBalances_run_def fetch_all_def nonneg_balances_def)
  next
    case (Inr v)
    with r sol_loop_nonneg [OF assms(1), of 0 pk 0 w v w1] have v: "0 \<le> v" by simp
    show ?thesis
    proof (cases "GOLD_mint tok")
      case (Inl err)
      with r Inr assms(2) show ?thesis
        by (simp add: getAllTokenBalances_run_def fetch_all_def nonneg_balances_def)
    next
      case m: (Inr m)
      have "0 \<le> fst (gold_loop (gold_attempt_all tok m pk conn) 0 0 w1)"
        by (rule gold_loop_nonneg) (auto dest: gold_attempt_all_nonneg [OF assms(1)])
      with r Inr m v show ?thesis
        by (simp add: getAllTokenBalances_run_def fetch_all_def nonneg_balances_def
            case_prod_beta)
    qed
  qed
qed

lemma getAllTokenBalances_nonneg:
  assumes "case co of None \<Rightarrow> True | Some conn \<Rightarrow> nonneg_ledger conn" "nonneg_balances s"
  shows "nonneg_balances (fst (getAllTokenBalances tok pko co (s, w)))"
proof (cases "pko = None \<or> co = None")
  case True
  with assms(2) show ?thesis
    by (auto simp: getAllTokenBalances_def getAllTokenBalances_enter_def nonneg_balances_def
        split: option.splits)
next
  case False
  then obtain pk conn where pc: "pko = Some pk" "co = Some conn" by auto
  with assms(1) have nl: "nonneg_ledger conn" by simp
  have "nonneg_balances (s\<lparr>isLoading := True\<rparr>)"
    using assms(2) by (simp add: nonneg_balances_def)
  from getAllTokenBalances_run_nonneg [OF nl this] pc show ?thesis
    by (simp add: getAllTokenBalances_def getAllTokenBalances_enter_def)
qed

text \<open>
  C9. In every state the store can reach from its initial state by refreshes of one asset
  (getTokenBalance) or of all (getAllTokenBalances), against ledgers that report no
  negative raw amount, both stored balances are at least 0.
\<close>

theorem balances_never_negative:
  assumes "reachable tok s"
  shows "0 \<le> SOL (balances s) \<and> 0 \<le> GOLD (balances s)"
proof -
  from assms have "nonneg_balances s"
  proof (induction rule: reachable.induct)
    case reachable_init
    show ?case by (simp add: nonneg_balances_def initial_state_def)
  next
    case (reachable_one s conn pk tokenSymbol w)
    then show ?case by (simp add: getTokenBalance_nonneg)
  next
    case (reachable_all s co pko w)
    then show ?case by (simp add: getAllTokenBalances_nonneg)
  qed
  then show ?thesis by (simp add: nonneg_balances_def)
qed

lemma nonneg_ledger_flaky: "nonneg_ledger ledger_flaky"
  by (simp add: nonneg_ledger_def ledger_flaky_def)

lemma nonneg_ledger_gold_down: "nonneg_ledger ledger_gold_down"
  by (simp add: nonneg_ledger_def ledger_gold_down_def ledger_ok_def)

theorem balances_never_negative_witness:
  "reachable tokens0
     (fst (getTokenBalance tokens0 wallet ledger_gold_down Sym_GOLD
        (fst (getAllTokenBalances tokens0 (Some wallet) (Some ledger_flaky)
           (initial_state, world0)), world0))) \<and>
   balances (fst (getTokenBalance tokens0 wallet ledger_gold_down Sym_GOLD
        (fst (getAllTokenBalances tokens0 (Some wallet) (Some ledger_flaky)
           (initial_state, world0)), world0))) = \<lparr>SOL = 3 / 2, GOLD = 0\<rparr> \<and>
   (0::rat) \<le> 3 / 2"
proof -
  let ?s1 = "fst (getAllTokenBalances tokens0 (Some wallet) (Some ledger_flaky)
               (initial_state, world0))"
  let ?s2 = "fst (getTokenBalance tokens0 wallet ledger_gold_down Sym_GOLD (?s1, world0))"
  have r1: "reachable tokens0 ?s1"
    by (rule reachable_all [OF reachable_init]) (simp add: nonneg_ledger_flaky)
  have r2: "reachable tokens0 ?s2"
    by (rule reachable_one [OF r1 nonneg_ledger_gold_down])
  have b: "balances ?s2 = \<lparr>SOL = 3 / 2, GOLD = 0\<rparr>"
    by (simp add: getTokenBalance_def fetch_one_def getAllTokenBalances_def
        getAllTokenBalances_enter_def getAllTokenBalances_run_def fetch_all_def
        sol_loop.simps gold_loop.simps sol_attempt_def gold_attempt_all_def
        gold_attempt_one_def call_getBalance_def call_getAssociatedTokenAddress_def
        call_getAccountInfo_def call_getAccount_def ledger_flaky_def ledger_gold_down_def
        ledger_ok_def world0_def backoff_def tokens0_def initial_state_def
        LAMPORTS_PER_SOL_def TOKEN_PROGRAM_ID_def set_balance_def dispatchEvent_def)
  from balances_never_negative [OF r2] r2 b show ?thesis by simp
qed

section \<open>Validation of the GOLD token account\<close>

lemma gold_attempt_all_rejected:
  assumes "getAssociatedTokenAddress conn m pk (n_getAssociatedTokenAddress w) = Inr addr"
    and "getAccountInfo conn addr (n_getAccountInfo w) = Inr ao"
    and "case ao of None \<Rightarrow> True
         | Some info \<Rightarrow> length (data info) = 0 \<or> owner info \<noteq> TOKEN_PROGRAM_ID"
  shows "gold_attempt_all tok m pk conn w =
    (Inr 0, w\<lparr>n_getAssociatedTokenAddress := Suc (n_getAssociatedTokenAddress w),
              n_getAccountInfo := Suc (n_getAccountInfo w)\<rparr>)"
  using assms
  by (auto simp: gold_attempt_all_def call_getAssociatedTokenAddress_def
      call_getAccountInfo_def split: option.splits)

lemma gold_attempt_one_absent:
  assumes "getAssociatedTokenAddress conn m pk (n_getAssociatedTokenAddress w) = Inr addr"
    and "getAccountInfo conn addr (n_getAccountInfo w) = Inr None"
  shows "gold_attempt_one tok m pk conn w =
    (Inr 0, w\<lparr>n_getAssociatedTokenAddress := Suc (n_getAssociatedTokenAddress w),
              n_getAccountInfo := Suc (n_getAccountInfo w)\<rparr>)"
  using assms
  by (simp add: gold_attempt_one_def call_getAssociatedTokenAddress_def
      call_getAccountInfo_def)

text \<open>
  What the two functions check before they read the token account. In
  getAllTokenBalances, once the SOL fetch has succeeded, an attempt of the GOLD loop that
  obtains the account information goes on to getAccount only if the account exists, its
  data are not empty and its owner is the token program; otherwise the GOLD balance of
  the snapshot is 0, getAccount is not called in that attempt, and the snapshot is
  published as usual. In getTokenBalance an absent account gives the GOLD balance 0 with
  no call of getAccount and no error.
\<close>

lemma gold_account_validation:
  assumes "GOLD_mint tok = Inr m" and "k < 3"
  shows
    "(sol_loop pk conn 0 0 w = (Inr v, w1) \<and>
      failures (gold_attempt_all tok m pk conn) k w1 = Some wa \<and>
      getAssociatedTokenAddress conn m pk (n_getAssociatedTokenAddress wa) = Inr addr \<and>
      getAccountInfo conn addr (n_getAccountInfo wa) = Inr ao \<and>
      (case ao of None \<Rightarrow> True
       | Some info \<Rightarrow> length (data info) = 0 \<or> owner info \<noteq> TOKEN_PROGRAM_ID) \<longrightarrow>
        fst (getAllTokenBalances tok (Some pk) (Some conn) (s, w)) =
          s\<lparr>balances := \<lparr>SOL = v, GOLD = 0\<rparr>, isLoading := False\<rparr> \<and>
        n_getAccount (snd (getAllTokenBalances tok (Some pk) (Some conn) (s, w))) =
          n_getAccount wa) \<and>
     (failures (gold_attempt_one tok m pk conn) k w = Some wo \<and>
      getAssociatedTokenAddress conn m pk (n_getAssociatedTokenAddress wo) = Inr addr' \<and>
      getAccountInfo conn addr' (n_getAccountInfo wo) = Inr None \<longrightarrow>
        fst (getTokenBalance tok pk conn Sym_GOLD (s, w)) =
          s\<lparr>balances := (balances s)\<lparr>GOLD := 0\<rparr>, isLoading := False\<rparr> \<and>
        n_getAccount (snd (getTokenBalance tok pk conn Sym_GOLD (s, w))) = n_getAccount wo)"
proof (intro conjI impI)
  assume h: "sol_loop pk conn 0 0 w = (Inr v, w1) \<and>
      failures (gold_attempt_all tok m pk conn) k w1 = Some wa \<and>
      getAssociatedTokenAddress conn m pk (n_getAssociatedTokenAddress wa) = Inr addr \<and>
      getAccountInfo conn addr (n_getAccountInfo wa) = Inr ao \<and>
      (case ao of None \<Rightarrow> True
       | Some info \<Rightarrow> length (data info) = 0 \<or> owner info \<noteq> TOKEN_PROGRAM_ID)"
  let ?wa' = "wa\<lparr>n_getAssociatedTokenAddress := Suc (n_getAssociatedTokenAddress wa),
                 n_getAccountInfo := Suc (n_getAccountInfo wa)\<rparr>"
  from h have "gold_attempt_all tok m pk conn wa = (Inr 0, ?wa')"
    using gold_attempt_all_rejected by blast
  with h assms(2) have "gold_loop (gold_attempt_all tok m pk conn) 0 0 w1 = (0, ?wa')"
    using gold_loop_after_k by blast
  with h assms(1) have R: "getAllTokenBalances tok (Some pk) (Some conn) (s, w) =
      (s\<lparr>balances := \<lparr>SOL = v, GOLD = 0\<rparr>, isLoading := False\<rparr>,
       dispatchEvent \<lparr>SOL = v, GOLD = 0\<rparr> ?wa')"
    by (simp add: getAllTokenBalances_def getAllTokenBalances_enter_def
        getAllTokenBalances_run_def fetch_all_def)
  show "fst (getAllTokenBalances tok (Some pk) (Some conn) (s, w)) =
      s\<lparr>balances := \<lparr>SOL = v, GOLD = 0\<rparr>, isLoading := False\<rparr>"
    by (simp add: R)
  show "n_getAccount (snd (getAllTokenBalances tok (Some pk) (Some conn) (s, w))) =
      n_getAccount wa"
    by (simp add: R dispatchEvent_def)
next
  assume h: "failures (gold_attempt_one tok m pk conn) k w = Some wo \<and>
      getAssociatedTokenAddress conn m pk (n_getAssociatedTokenAddress wo) = Inr addr' \<and>
      getAccountInfo conn addr' (n_getAccountInfo wo) = Inr None"
  let ?wo' = "wo\<lparr>n_getAssociatedTokenAddress := Suc (n_getAssociatedTokenAddress wo),
                 n_getAccountInfo := Suc (n_getAccountInfo wo)\<rparr>"
  from h have "gold_attempt_one tok m pk conn wo = (Inr 0, ?wo')"
    using gold_attempt_one_absent by blast
  with h assms(2) have "gold_loop (gold_attempt_one tok m pk conn) 0 0 w = (0, ?wo')"
    using gold_loop_after_k by blast
  with assms(1) have R: "getTokenBalance tok pk conn Sym_GOLD (s, w) =
      (s\<lparr>balances := (balances s)\<lparr>GOLD := 0\<rparr>, isLoading := False\<rparr>, ?wo')"
    by (simp add: getTokenBalance_def fetch_one_def set_balance_def)
  show "fst (getTokenBalance tok pk conn Sym_GOLD (s, w)) =
      s\<lparr>balances := (balances s)\<lparr>GOLD := 0\<rparr>, isLoading := False\<rparr>"
    by (simp add: R)
  show "n_getAccount (snd (getTokenBalance tok pk conn Sym_GOLD (s, w))) = n_getAccount wo"
    by (simp add: R)
qed

lemma sol_loop_plain_account:
  "sol_loop wallet ledger_plain_account 0 0 world0 =
     (Inr (3 / 2), world0\<lparr>n_getBalance := 1\<rparr>)"
  by (simp add: sol_loop.simps sol_attempt_def call_getBalance_def ledger_plain_account_def
      ledger_ok_def world0_def LAMPORTS_PER_SOL_def)

text \<open>
  The plain account is rejected by getAllTokenBalances at once; the absent account is
  rejected by getTokenBalance at once.
\<close>

lemma gold_account_validation_example:
  "fst (getAllTokenBalances tokens0 (Some wallet) (Some ledger_plain_account)
     (stale_state, world0)) = \<lparr>balances = \<lparr>SOL = 3 / 2, GOLD = 0\<rparr>, isLoading = False\<rparr> \<and>
   n_getAccount (snd (getAllTokenBalances tokens0 (Some wallet) (Some ledger_plain_account)
     (stale_state, world0))) = 0 \<and>
   fst (getTokenBalance tokens0 wallet ledger_no_account Sym_GOLD (stale_state, world0)) =
     \<lparr>balances = \<lparr>SOL = 5, GOLD = 0\<rparr>, isLoading = False\<rparr> \<and>
   n_getAccount (snd (getTokenBalance tokens0 wallet ledger_no_account Sym_GOLD
     (stale_state, world0))) = 0"
proof -
  have m: "GOLD_mint tokens0 = Inr gold_mint" by (simp add: tokens0_def)
  have k: "(0::nat) < 3" by simp
  let ?w1 = "world0\<lparr>n_getBalance := 1\<rparr>"
  have a: "getAssociatedTokenAddress ledger_plain_account gold_mint wallet
             (n_getAssociatedTokenAddress ?w1) = Inr ''ata''"
    by (simp add: ledger_plain_account_def ledger_ok_def)
  have i: "getAccountInfo ledger_plain_account ''ata'' (n_getAccountInfo ?w1) =
             Inr (Some \<lparr>data = [], owner = ''11111111111111111111111111111111''\<rparr>)"
    by (simp add: ledger_plain_account_def ledger_ok_def)
  have a': "getAssociatedTokenAddress ledger_no_account gold_mint wallet
             (n_getAssociatedTokenAddress world0) = Inr ''ata''"
    by (simp add: ledger_no_account_def ledger_ok_def)
  have i': "getAccountInfo ledger_no_account ''ata'' (n_getAccountInfo world0) = Inr None"
    by (simp add: ledger_no_account_def ledger_ok_def)
  from gold_account_validation [OF m k, where pk = wallet and conn = ledger_plain_account
      and w = world0 and v = "3 / 2" and ?w1.0 = ?w1 and wa = ?w1 and addr = "''ata''"
      and ao = "Some \<lparr>data = [], owner = ''11111111111111111111111111111111''\<rparr>"
      and s = stale_state]
    gold_account_validation [OF m k, where pk = wallet and conn = ledger_no_account
      and w = world0 and wo = world0 and addr' = "''ata''" and s = stale_state]
    sol_loop_plain_account a i a' i'
  show ?thesis by (simp add: stale_state_def world0_def)
qed


section \<open>Triggers while a refresh is in flight\<close>

lemma call_getAllTokenBalances_present:
  "call_getAllTokenBalances origin (Some pk) (Some conn) t =
     t\<lparr>store := (store t)\<lparr>isLoading := True\<rparr>,
       running := running t @
         [\<lparr>call_origin = origin, call_publicKey = pk, call_connection = conn\<rparr>]\<rparr>"
  by (simp add: call_getAllTokenBalances_def getAllTokenBalances_enter_def)

text \<open>
  C3, as the code has it. Neither getAllTokenBalances nor the timer callbacks look at
  isLoading or at the calls in flight: a timer that fires (periodic, delayed or secondary)
  with a publicKey and a connection in its closure adds a call in flight, whatever is in
  flight already. Only the refresh button is gated, by isLoading: while isLoading is true
  a click does nothing, and while it is false a click adds a call in flight, whatever is
  in flight already.
\<close>

theorem triggers_not_deduplicated:
  "(find (\<lambda>tm. timer_id tm = h) (timers t) = Some tm \<and>
    timer_publicKey tm = Some pk \<and> timer_connection tm = Some conn \<longrightarrow>
      running (fire h t) = running t @
        [\<lparr>call_origin = timer_origin tm, call_publicKey = pk, call_connection = conn\<rparr>]) \<and>
   (publicKey t = Some pk \<and> connection t = Some conn \<and> \<not> isLoading (store t) \<longrightarrow>
      running (click t) = running t @
        [\<lparr>call_origin = Manual, call_publicKey = pk, call_connection = conn\<rparr>]) \<and>
   (isLoading (store t) \<longrightarrow> click t = t)"
proof (intro conjI impI)
  assume h: "find (\<lambda>tm. timer_id tm = h) (timers t) = Some tm \<and>
    timer_publicKey tm = Some pk \<and> timer_connection tm = Some conn"
  show "running (fire h t) = running t @
      [\<lparr>call_origin = timer_origin tm, call_publicKey = pk, call_connection = conn\<rparr>]"
    using h
    by (cases "timer_origin tm")
      (simp_all add: fire_def refreshBalances_def call_getAllTokenBalances_present
        clearTimer_def Let_def)
next
  assume "publicKey t = Some pk \<and> connection t = Some conn \<and> \<not> isLoading (store t)"
  then show "running (click t) = running t @
      [\<lparr>call_origin = Manual, call_publicKey = pk, call_connection = conn\<rparr>]"
    by (simp add: click_def handleRefresh_def call_getAllTokenBalances_present)
next
  assume "isLoading (store t)"
  then show "click t = t" by (simp add: click_def)
qed

lemmas tracker_defs =
  mount_def autoRefresh_effect_def initialLoad_effect_def setTimer_def
  call_getAllTokenBalances_present tracker_fetchPriceData_def run_events_def fire_def click_def
  handleRefresh_def refreshBalances_def clearTimer_def complete_def after_call_def
  setPublicKey_def autoRefresh_cleanup_def initialLoad_cleanup_def Let_def

theorem second_cycle_starts_while_first_runs:
  "map call_origin (running tracker0) = [Initial] \<and>
   isLoading (store tracker0) \<and>
   map call_origin (running (run_events [Fire 1] tracker0)) = [Initial, Delayed] \<and>
   map call_origin (running (run_events [Fire 1, Fire 0] tracker0)) =
     [Initial, Delayed, Periodic]"
  by (simp add: tracker0_def tracker_defs)


theorem triggers_not_deduplicated_witness:
  "find (\<lambda>tm. timer_id tm = 1) (timers tracker0) =
     Some \<lparr>timer_id = 1, timer_delay = 3000, timer_repeats = False, timer_origin = Delayed,
           timer_publicKey = Some wallet, timer_connection = Some ledger_ok\<rparr> \<and>
   map call_origin (running tracker0) = [Initial] \<and>
   map call_origin (running (fire 1 tracker0)) = [Initial, Delayed] \<and>
   isLoading (store tracker0) \<and> click tracker0 = tracker0 \<and>
   \<not> isLoading (store (run_events [Fire 1, Complete 0] tracker0)) \<and>
   map call_origin (running (run_events [Fire 1, Complete 0] tracker0)) = [Delayed] \<and>
   map call_origin (running (click (run_events [Fire 1, Complete 0] tracker0))) =
     [Delayed, Manual]"
proof -
  let ?tm = "\<lparr>timer_id = 1, timer_delay = 3000, timer_repeats = False, timer_origin = Delayed,
           timer_publicKey = Some wallet, timer_connection = Some ledger_ok\<rparr>"
  let ?t = "run_events [Fire 1, Complete 0] tracker0"
  have f: "find (\<lambda>tm. timer_id tm = 1) (timers tracker0) = Some ?tm"
    by (simp add: tracker0_def tracker_defs)
  have r: "map call_origin (running tracker0) = [Initial]"
    by (simp add: tracker0_def tracker_defs)
  have l: "isLoading (store tracker0)"
    by (simp add: tracker0_def tracker_defs)
  have p: "publicKey ?t = Some wallet \<and> connection ?t = Some ledger_ok"
    by (simp add: tracker0_def tracker_defs)
  have r': "map call_origin (running ?t) = [Delayed]"
    by (simp add: tracker0_def tracker_defs)
  have l': "\<not> isLoading (store ?t)"
    by (simp add: tracker0_def tracker_defs getAllTokenBalances_run_def case_prod_beta
        split: sum.splits)
  from triggers_not_deduplicated [of 1 tracker0 ?tm wallet ledger_ok]
    triggers_not_deduplicated [of 1 ?t ?tm wallet ledger_ok] f r l p r' l'
  show ?thesis by simp
qed

section \<open>A wallet identity that changes while a refresh is in flight\<close>

lemma fold_clearTimer:
  "fold clearTimer hs t = t\<lparr>timers := filter (\<lambda>tm. timer_id tm \<notin> set hs) (timers t)\<rparr>"
  by (induction hs arbitrary: t) (simp_all add: clearTimer_def conj_commute)

text \<open>The rest of a call neither reads isLoading nor leaves it as it was.\<close>

lemma getAllTokenBalances_run_isLoading:
  "getAllTokenBalances_run tok pk conn (s\<lparr>isLoading := b\<rparr>, w) =
   getAllTokenBalances_run tok pk conn (s, w)"
  by (simp add: getAllTokenBalances_run_def split: prod.splits sum.splits)

lemma after_call_store_world:
  "store (after_call origin pk conn t) = store t \<and> world (after_call origin pk conn t) = world t"
  by (cases origin) (simp_all add: after_call_def setTimer_def tracker_fetchPriceData_def)

lemma complete_store_world:
  assumes "k < length (running t)"
  shows "(store (complete k t), world (complete k t)) =
    getAllTokenBalances_run (tokens t) (call_publicKey (running t ! k))
      (call_connection (running t ! k)) (store t, world t)"
  using assms by (simp add: complete_def Let_def after_call_store_world)

lemma setPublicKey_fields:
  "tokens (setPublicKey p t) = tokens t"
  "world (setPublicKey p t) = world t"
  "store (setPublicKey p t) =
     (if p \<noteq> publicKey t \<and> p \<noteq> None \<and> connection t \<noteq> None
      then (store t)\<lparr>isLoading := True\<rparr> else store t)"
  "running (setPublicKey p t) =
     (if p \<noteq> publicKey t \<and> p \<noteq> None \<and> connection t \<noteq> None
      then running t @ [\<lparr>call_origin = Initial, call_publicKey = the p,
                          call_connection = the (connection t)\<rparr>]
      else running t)"
  by (auto simp: setPublicKey_def initialLoad_effect_def autoRefresh_effect_def
      initialLoad_cleanup_def autoRefresh_cleanup_def fold_clearTimer clearTimer_def
      setTimer_def tracker_fetchPriceData_def call_getAllTokenBalances_present Let_def
      split: option.splits)

lemma setPublicKey_None:
  assumes "publicKey t \<noteq> None"
  shows "setPublicKey None t =
    t\<lparr>publicKey := None, interval_handle := None, timeout_handles := [], listening := False,
      timers := filter (\<lambda>tm. Some (timer_id tm) \<noteq> interval_handle t \<and>
                            timer_id tm \<notin> set (timeout_handles t)) (timers t)\<rparr>"
  using assms
  by (auto simp: setPublicKey_def initialLoad_effect_def autoRefresh_effect_def
      initialLoad_cleanup_def autoRefresh_cleanup_def fold_clearTimer clearTimer_def
      split: option.splits intro: filter_cong)

text \<open>
  C7, as the code has it. A call of getAllTokenBalances in flight is not cancelled and
  does not look at the wallet identity when it publishes: the store and the world (with
  the events dispatched) after it completes are those getAllTokenBalances produces for
  the publicKey and connection the call was made with, and they are the same whether or
  not the identity has changed in between. When the wallet detaches, the clean-ups of
  the two effects clear the periodic interval and the two start-up timeouts they hold;
  the calls in flight stay in flight.
\<close>

theorem identity_change_keeps_publication:
  "(k < length (running t) \<longrightarrow>
      (store (complete k t), world (complete k t)) =
        getAllTokenBalances_run (tokens t) (call_publicKey (running t ! k))
          (call_connection (running t ! k)) (store t, world t) \<and>
      store (complete k (setPublicKey p t)) = store (complete k t) \<and>
      world (complete k (setPublicKey p t)) = world (complete k t)) \<and>
   (publicKey t \<noteq> None \<longrightarrow>
      timers (setPublicKey None t) =
        filter (\<lambda>tm. Some (timer_id tm) \<noteq> interval_handle t \<and>
                      timer_id tm \<notin> set (timeout_handles t)) (timers t) \<and>
      interval_handle (setPublicKey None t) = None \<and>
      timeout_handles (setPublicKey None t) = [] \<and>
      running (setPublicKey None t) = running t)"
proof (intro conjI impI)
  assume k: "k < length (running t)"
  show "(store (complete k t), world (complete k t)) =
        getAllTokenBalances_run (tokens t) (call_publicKey (running t ! k))
          (call_connection (running t ! k)) (store t, world t)"
    using k by (rule complete_store_world)
  let ?t' = "setPublicKey p t"
  have k': "k < length (running ?t')" using k by (simp add: setPublicKey_fields)
  have c: "running ?t' ! k = running t ! k"
    using k by (simp add: setPublicKey_fields nth_append)
  have "(store (complete k ?t'), world (complete k ?t')) =
      getAllTokenBalances_run (tokens t) (call_publicKey (running t ! k))
        (call_connection (running t ! k)) (store ?t', world t)"
    using complete_store_world [OF k'] by (simp add: c setPublicKey_fields(1,2))
  also have "\<dots> = getAllTokenBalances_run (tokens t) (call_publicKey (running t ! k))
        (call_connection (running t ! k)) (store t, world t)"
    by (simp add: setPublicKey_fields(3) getAllTokenBalances_run_isLoading)
  also have "\<dots> = (store (complete k t), world (complete k t))"
    using complete_store_world [OF k] by simp
  finally show "store (complete k ?t') = store (complete k t)"
    and "world (complete k ?t') = world (complete k t)"
    by simp_all
next
  assume "publicKey t \<noteq> None"
  then have e: "setPublicKey None t =
    t\<lparr>publicKey := None, interval_handle := None, timeout_handles := [], listening := False,
      timers := filter (\<lambda>tm. Some (timer_id tm) \<noteq> interval_handle t \<and>
                            timer_id tm \<notin> set (timeout_handles t)) (timers t)\<rparr>"
    by (rule setPublicKey_None)
  show "timers (setPublicKey None t) =
        filter (\<lambda>tm. Some (timer_id tm) \<noteq> interval_handle t \<and>
                      timer_id tm \<notin> set (timeout_handles t)) (timers t)"
    by (simp add: e)
  show "interval_handle (setPublicKey None t) = None" by (simp add: e)
  show "timeout_handles (setPublicKey None t) = []" by (simp add: e)
  show "running (setPublicKey None t) = running t" by (simp add: e)
qed

theorem identity_change_keeps_publication_witness:
  "0 < length (running tracker0) \<and> publicKey tracker0 \<noteq> None \<and>
   store (complete 0 tracker0) = \<lparr>balances = \<lparr>SOL = 3 / 2, GOLD = 2\<rparr>, isLoading = False\<rparr> \<and>
   store (complete 0 (setPublicKey (Some ''another wallet'') tracker0)) =
     \<lparr>balances = \<lparr>SOL = 3 / 2, GOLD = 2\<rparr>, isLoading = False\<rparr> \<and>
   map timer_id (timers tracker0) = [0, 1, 2] \<and>
   timers (setPublicKey None tracker0) = [] \<and>
   map call_origin (running (setPublicKey None tracker0)) = [Initial]"
proof -
  have k: "0 < length (running tracker0)"
    by (simp add: tracker0_def tracker_defs)
  have p: "publicKey tracker0 \<noteq> None"
    by (simp add: tracker0_def tracker_defs)
  have c: "running tracker0 ! 0 =
      \<lparr>call_origin = Initial, call_publicKey = wallet, call_connection = ledger_ok\<rparr>"
    by (simp add: tracker0_def tracker_defs)
  have sw: "store tracker0 = initial_state\<lparr>isLoading := True\<rparr> \<and> world tracker0 = world0 \<and>
      tokens tracker0 = tokens0"
    by (simp add: tracker0_def tracker_defs)
  have r: "getAllTokenBalances_run tokens0 wallet ledger_ok (initial_state\<lparr>isLoading := True\<rparr>, world0) =
      (\<lparr>balances = \<lparr>SOL = 3 / 2, GOLD = 2\<rparr>, isLoading = False\<rparr>,
       world0\<lparr>n_getBalance := 1, n_getAssociatedTokenAddress := 1, n_getAccountInfo := 1,
         n_getAccount := 1, dispatched := [\<lparr>SOL = 3 / 2, GOLD = 2\<rparr>]\<rparr>)"
    by (simp add: getAllTokenBalances_run_def fetch_all_def sol_loop.simps gold_loop.simps
        sol_attempt_def gold_attempt_all_def call_getBalance_def
        call_getAssociatedTokenAddress_def call_getAccountInfo_def call_getAccount_def
        ledger_ok_def world0_def tokens0_def initial_state_def LAMPORTS_PER_SOL_def
        dispatchEvent_def)
  have t: "map timer_id (timers tracker0) = [0, 1, 2] \<and> interval_handle tracker0 = Some 0 \<and>
      timeout_handles tracker0 = [1, 2] \<and> map call_origin (running tracker0) = [Initial]"
    by (simp add: tracker0_def tracker_defs)
  have t': "filter (\<lambda>tm. Some (timer_id tm) \<noteq> interval_handle tracker0 \<and>
      timer_id tm \<notin> set (timeout_handles tracker0)) (timers tracker0) = []"
    by (simp add: tracker0_def tracker_defs)
  from identity_change_keeps_publication [of 0 tracker0 "Some ''another wallet''"]
    k p c sw r t t'
  show ?thesis by simp
qed

text \<open>
  C7 as stated fails: the wallet detaches while the first refresh is in flight; when that
  refresh completes, the component has no wallet, and yet the store holds the balances of
  the detached wallet and the event has been dispatched.
\<close>

theorem detached_wallet_still_published:
  "balances (store tracker0) = \<lparr>SOL = 0, GOLD = 0\<rparr> \<and> dispatched (world tracker0) = [] \<and>
   map call_origin (running tracker0) = [Initial] \<and>
   publicKey (run_events [SetPublicKey None, Complete 0] tracker0) = None \<and>
   balances (store (run_events [SetPublicKey None, Complete 0] tracker0)) =
     \<lparr>SOL = 3 / 2, GOLD = 2\<rparr> \<and>
   dispatched (world (run_events [SetPublicKey None, Complete 0] tracker0)) =
     [\<lparr>SOL = 3 / 2, GOLD = 2\<rparr>]"
  by (simp add: tracker0_def tracker_defs getAllTokenBalances_run_def fetch_all_def
      sol_loop.simps gold_loop.simps
      sol_attempt_def gold_attempt_all_def call_getBalance_def
      call_getAssociatedTokenAddress_def call_getAccountInfo_def call_getAccount_def
      ledger_ok_def world0_def tokens0_def initial_state_def LAMPORTS_PER_SOL_def
      dispatchEvent_def)

end
